theory Spec2Isabelle
  imports Main "HOL-Library.Word"
begin

section \<open>Solidity values, errors and events\<close>

text \<open>
  The contract \<^verbatim>\<open>contracts/ArcadeManager.sol\<close> is compiled with
  \<^verbatim>\<open>pragma solidity ^0.8.0\<close>: an \<^verbatim>\<open>address\<close> is 160 bits wide, a
  \<^verbatim>\<open>uint256\<close> 256 bits, and \<^verbatim>\<open>+\<close>, \<^verbatim>\<open>-\<close>, \<^verbatim>\<open>*\<close> on
  \<^verbatim>\<open>uint256\<close> revert with \<^verbatim>\<open>Panic(0x11)\<close> instead of wrapping around.
\<close>

type_synonym address = "160 word"
type_synonym uint256 = "256 word"

text \<open>
  Every way a call can revert. The contract reverts with a message string; the
  constructors carry the names the specification gives to the messages:
  \<^item> \<open>InvalidAmount\<close>: "Amount must be greater than zero";
  \<^item> \<open>InvalidAddress\<close>: "Invalid player address", "Token address cannot be zero";
  \<^item> \<open>InsufficientCredits\<close>: "Insufficient credits";
  \<^item> \<open>InsufficientReserve\<close>: "Insufficient contract balance";
  \<^item> \<open>TooSmall\<close>: "Resulting token amount too small";
  \<^item> \<open>TransferFailed\<close>: "Token transfer failed";
  \<^item> \<open>AccessDenied\<close>: "Ownable: caller is not the owner";
  \<^item> \<open>ReentrancyDetected\<close>: "ReentrancyGuard: reentrant call";
  \<^item> \<open>Panic\<close>: the arithmetic overflow or underflow check of the compiler;
  \<^item> \<open>CallReverted\<close>: the called token contract itself reverted, which the
    high-level call propagates.
\<close>

datatype error =
    InvalidAmount
  | InvalidAddress
  | InsufficientCredits
  | InsufficientReserve
  | TooSmall
  | TransferFailed
  | AccessDenied
  | ReentrancyDetected
  | Panic
  | CallReverted

text \<open>
  The events of the contract, with their arguments in the order of declaration, and
  the event of the imported \<^verbatim>\<open>Ownable\<close> (previous owner, new owner).
\<close>

datatype event =
    Deposit address uint256 uint256
  | CreditsSpent address uint256
  | WinningsAwarded address uint256
  | Withdrawal address uint256 uint256
  | OwnershipTransferred address address

text \<open>
  Checked arithmetic: the result when it fits in 256 bits (\<open>uint\<close> reads a word as
  an unsigned integer), a panic otherwise. \<open>MAX_UINT256\<close> is
  \<^verbatim>\<open>type(uint256).max\<close>.
\<close>

definition MAX_UINT256 :: int where
  "MAX_UINT256 = 2 ^ 256 - 1"

definition checked_add :: "uint256 \<Rightarrow> uint256 \<Rightarrow> error + uint256" where
  "checked_add a b = (if uint a + uint b \<le> MAX_UINT256 then Inr (a + b) else Inl Panic)"

definition checked_sub :: "uint256 \<Rightarrow> uint256 \<Rightarrow> error + uint256" where
  "checked_sub a b = (if uint b \<le> uint a then Inr (a - b) else Inl Panic)"

definition checked_mul :: "uint256 \<Rightarrow> uint256 \<Rightarrow> error + uint256" where
  "checked_mul a b = (if uint a * uint b \<le> MAX_UINT256 then Inr (a * b) else Inl Panic)"

section \<open>The contract's storage\<close>

text \<open>
  The storage variables of \<^verbatim>\<open>ArcadeManager\<close>: its own \<^verbatim>\<open>bullToken\<close> and
  \<^verbatim>\<open>userCredits\<close> (a mapping, every key of which reads 0 until written), and
  the two variables it inherits: the owner of \<^verbatim>\<open>Ownable\<close> and the status
  flag of \<^verbatim>\<open>ReentrancyGuard\<close>.
\<close>

datatype guard = NOT_ENTERED | ENTERED

record ArcadeManager =
  bullToken :: address
  userCredits :: "address \<Rightarrow> uint256"
  owner :: address
  status :: guard

text \<open>Conversion rate: 1 BULL = 100 credits.\<close>

definition CREDIT_RATE :: uint256 where
  "CREDIT_RATE = 100"

section \<open>The token contract, an external collaborator\<close>

text \<open>
  While the token runs, it (or a contract it calls) may call back into the ledger.
  A call back into \<^verbatim>\<open>deposit\<close>, \<^verbatim>\<open>spendCredits\<close> or
  \<^verbatim>\<open>withdraw\<close> reverts at the guard, which is locked for as long as the
  token runs, and a call that reverts leaves no trace in the ledger. The calls that
  can leave one are those of the functions without \<^verbatim>\<open>nonReentrant\<close>:
  \<^verbatim>\<open>awardWinnings\<close>, and the two functions that change the owner,
  inherited from \<^verbatim>\<open>Ownable\<close>. A \<open>reentry\<close> is such a call with its
  \<^verbatim>\<open>msg.sender\<close>, which the model lets be any address.
\<close>

datatype call =
    AwardWinnings address uint256
  | TransferOwnership address
  | RenounceOwnership

type_synonym reentry = "address \<times> call"

text \<open>
  The contract at address \<^verbatim>\<open>bullToken\<close> is any implementation of
  \<^verbatim>\<open>IERC20\<close>; the ledger calls three of its functions. It is a parameter of
  the model: a state of its own, of type \<open>'ts\<close>, and one function per entry point.
  \<open>transfer\<close> and \<open>transferFrom\<close> take the storage of the ledger as it is at
  the moment of the call (what a read of \<^verbatim>\<open>getCredits\<close>,
  \<^verbatim>\<open>userCredits\<close> or \<^verbatim>\<open>owner\<close> from inside the token returns
  then), \<^verbatim>\<open>msg.sender\<close> of the call and its arguments. The result is
  \<open>None\<close> when the token reverts; otherwise it is the returned boolean, the token's
  new state, and the calls made back into the ledger before the token returned, in
  the order they were made. \<open>balanceOf\<close> is a view: it changes nothing.
\<close>

record 'ts IERC20 =
  balanceOf :: "'ts \<Rightarrow> address \<Rightarrow> uint256 option"
  transfer :: "ArcadeManager \<Rightarrow> address \<Rightarrow> address \<Rightarrow> uint256 \<Rightarrow> 'ts
    \<Rightarrow> (bool \<times> 'ts \<times> reentry list) option"
  transferFrom :: "ArcadeManager \<Rightarrow> address \<Rightarrow> address \<Rightarrow> address \<Rightarrow> uint256 \<Rightarrow> 'ts
    \<Rightarrow> (bool \<times> 'ts \<times> reentry list) option"

text \<open>
  What a call can change: the ledger's storage, the token's state, and the log of
  events emitted so far.
\<close>

record 'ts world =
  ledger :: ArcadeManager
  token :: 'ts
  events :: "event list"

text \<open>
  A call that reverts leaves everything as it was before the call: the result of an
  operation is either the error it reverted with or the world it committed.
\<close>

definition transact :: "('ts world \<Rightarrow> error + 'ts world) \<Rightarrow> 'ts world \<Rightarrow> error option \<times> 'ts world" where
  "transact op w = (case op w of Inl e \<Rightarrow> (Some e, w) | Inr w' \<Rightarrow> (None, w'))"

section \<open>Modifiers\<close>

text \<open>
  Modelled from the spec: the modifier \<^verbatim>\<open>nonReentrant\<close> of the imported
  \<^verbatim>\<open>ReentrancyGuard\<close> (section 4.2: on entry, fail with ReentrancyDetected if the
  guard is locked, otherwise lock it; reset it on exit). A modifier in a function's
  header runs before the function's body, which takes the place of its placeholder.
\<close>

definition nonReentrant :: "('ts world \<Rightarrow> error + 'ts world) \<Rightarrow> 'ts world \<Rightarrow> error + 'ts world" where
  "nonReentrant body w =
     (if status (ledger w) = ENTERED then Inl ReentrancyDetected
      else case body (w\<lparr>ledger := (ledger w)\<lparr>status := ENTERED\<rparr>\<rparr>) of
             Inl e \<Rightarrow> Inl e
           | Inr w' \<Rightarrow> Inr (w'\<lparr>ledger := (ledger w')\<lparr>status := NOT_ENTERED\<rparr>\<rparr>))"

text \<open>
  Modelled from the spec: the modifier \<^verbatim>\<open>onlyOwner\<close> of the imported
  \<^verbatim>\<open>Ownable\<close> (section 4.1, requireOwner: fail with AccessDenied if the caller is
  not the owner).
\<close>

definition onlyOwner :: "address \<Rightarrow> ('ts world \<Rightarrow> error + 'ts world) \<Rightarrow> 'ts world \<Rightarrow> error + 'ts world" where
  "onlyOwner msg_sender body w =
     (if owner (ledger w) \<noteq> msg_sender then Inl AccessDenied else body w)"

section \<open>The functions without the guard\<close>

text \<open>
  In each function, \<open>this\<close> is \<^verbatim>\<open>address(this)\<close> and \<open>msg_sender\<close> is
  \<^verbatim>\<open>msg.sender\<close>. The constructor comes first; \<^verbatim>\<open>Ownable\<close>'s
  constructor makes the deployer the owner.
\<close>

definition constructor :: "address \<Rightarrow> address \<Rightarrow> error + ArcadeManager" where
  "constructor msg_sender bullToken' =
     (if \<not> bullToken' \<noteq> 0 then Inl InvalidAddress
      else Inr \<lparr>bullToken = bullToken', userCredits = (\<lambda>_. 0), owner = msg_sender,
                status = NOT_ENTERED\<rparr>)"

definition awardWinnings_body :: "address \<Rightarrow> uint256 \<Rightarrow> 'ts world \<Rightarrow> error + 'ts world" where
  "awardWinnings_body player amount w =
     (if \<not> player \<noteq> 0 then Inl InvalidAddress
      else if \<not> 0 < amount then Inl InvalidAmount
      else case checked_add (userCredits (ledger w) player) amount of
        Inl e \<Rightarrow> Inl e
      | Inr c \<Rightarrow>
          Inr (w\<lparr>ledger := (ledger w)\<lparr>userCredits := (userCredits (ledger w))(player := c)\<rparr>,
                 events := events w @ [WinningsAwarded player amount]\<rparr>))"

definition awardWinnings :: "address \<Rightarrow> address \<Rightarrow> uint256 \<Rightarrow> 'ts world \<Rightarrow> error + 'ts world" where
  "awardWinnings msg_sender player amount = onlyOwner msg_sender (awardWinnings_body player amount)"

text \<open>
  Modelled from the spec: \<^verbatim>\<open>transferOwnership\<close> of the imported
  \<^verbatim>\<open>Ownable\<close> (section 4.1: the caller must be the owner, else AccessDenied;
  the new owner must not be null, else InvalidAddress; the owner is set and the
  change notified). \<^verbatim>\<open>renounceOwnership\<close>, which \<^verbatim>\<open>Ownable\<close> has
  beside it and the specification does not list, hands the ownership to the null
  address.
\<close>

definition transferOwnership_body :: "address \<Rightarrow> 'ts world \<Rightarrow> error + 'ts world" where
  "transferOwnership_body newOwner w =
     (if \<not> newOwner \<noteq> 0 then Inl InvalidAddress
      else Inr (w\<lparr>ledger := (ledger w)\<lparr>owner := newOwner\<rparr>,
                  events := events w @ [OwnershipTransferred (owner (ledger w)) newOwner]\<rparr>))"

definition transferOwnership :: "address \<Rightarrow> address \<Rightarrow> 'ts world \<Rightarrow> error + 'ts world" where
  "transferOwnership msg_sender newOwner = onlyOwner msg_sender (transferOwnership_body newOwner)"

definition renounceOwnership_body :: "'ts world \<Rightarrow> error + 'ts world" where
  "renounceOwnership_body w =
     Inr (w\<lparr>ledger := (ledger w)\<lparr>owner := 0\<rparr>,
            events := events w @ [OwnershipTransferred (owner (ledger w)) 0]\<rparr>)"

definition renounceOwnership :: "address \<Rightarrow> 'ts world \<Rightarrow> error + 'ts world" where
  "renounceOwnership msg_sender = onlyOwner msg_sender renounceOwnership_body"

definition getCredits :: "ArcadeManager \<Rightarrow> address \<Rightarrow> uint256" where
  "getCredits l user = userCredits l user"

section \<open>Calls back into the ledger\<close>

text \<open>
  What one call made from inside the token leaves behind: the world the called
  function commits, or the world as it was when the function reverts (the token is
  free to catch the revert and go on). \<open>reentered\<close> runs the calls of one external
  call in order; it is applied to the world as it is when the token is called.
\<close>

fun reenter :: "reentry \<Rightarrow> 'ts world \<Rightarrow> 'ts world" where
  "reenter (msg_sender, AwardWinnings player amount) w =
     snd (transact (awardWinnings msg_sender player amount) w)"
| "reenter (msg_sender, TransferOwnership newOwner) w =
     snd (transact (transferOwnership msg_sender newOwner) w)"
| "reenter (msg_sender, RenounceOwnership) w =
     snd (transact (renounceOwnership msg_sender) w)"

definition reentered :: "reentry list \<Rightarrow> 'ts world \<Rightarrow> 'ts world" where
  "reentered calls w = fold reenter calls w"

section \<open>The functions behind the guard\<close>

definition deposit_body :: "'ts IERC20 \<Rightarrow> address \<Rightarrow> address \<Rightarrow> uint256 \<Rightarrow> 'ts world \<Rightarrow> error + 'ts world" where
  "deposit_body tok this msg_sender bullAmount w =
     (if \<not> 0 < bullAmount then Inl InvalidAmount
      else case transferFrom tok (ledger w) this msg_sender this bullAmount (token w) of
        None \<Rightarrow> Inl CallReverted
      | Some (ok, ts', calls) \<Rightarrow>
          (let w1 = (reentered calls w)\<lparr>token := ts'\<rparr>
           in if \<not> ok then Inl TransferFailed
              else (case checked_mul bullAmount CREDIT_RATE of
                Inl e \<Rightarrow> Inl e
              | Inr creditAmount \<Rightarrow>
                  (case checked_add (userCredits (ledger w1) msg_sender) creditAmount of
                    Inl e \<Rightarrow> Inl e
                  | Inr c \<Rightarrow>
                      Inr (w1\<lparr>ledger := (ledger w1)\<lparr>userCredits :=
                                 (userCredits (ledger w1))(msg_sender := c)\<rparr>,
                              events := events w1 @ [Deposit msg_sender bullAmount creditAmount]\<rparr>)))))"

definition deposit :: "'ts IERC20 \<Rightarrow> address \<Rightarrow> address \<Rightarrow> uint256 \<Rightarrow> 'ts world \<Rightarrow> error + 'ts world" where
  "deposit tok this msg_sender bullAmount = nonReentrant (deposit_body tok this msg_sender bullAmount)"

definition spendCredits_body :: "address \<Rightarrow> uint256 \<Rightarrow> 'ts world \<Rightarrow> error + 'ts world" where
  "spendCredits_body msg_sender amount w =
     (if \<not> 0 < amount then Inl InvalidAmount
      else if \<not> amount \<le> userCredits (ledger w) msg_sender then Inl InsufficientCredits
      else case checked_sub (userCredits (ledger w) msg_sender) amount of
        Inl e \<Rightarrow> Inl e
      | Inr c \<Rightarrow>
          Inr (w\<lparr>ledger := (ledger w)\<lparr>userCredits := (userCredits (ledger w))(msg_sender := c)\<rparr>,
                 events := events w @ [CreditsSpent msg_sender amount]\<rparr>))"

definition spendCredits :: "address \<Rightarrow> uint256 \<Rightarrow> 'ts world \<Rightarrow> error + 'ts world" where
  "spendCredits msg_sender amount = nonReentrant (spendCredits_body msg_sender amount)"

definition withdraw_body :: "'ts IERC20 \<Rightarrow> address \<Rightarrow> address \<Rightarrow> uint256 \<Rightarrow> 'ts world \<Rightarrow> error + 'ts world" where
  "withdraw_body tok this msg_sender creditAmount w =
     (if \<not> 0 < creditAmount then Inl InvalidAmount
      else if \<not> creditAmount \<le> userCredits (ledger w) msg_sender then Inl InsufficientCredits
      else let bullAmount = creditAmount div CREDIT_RATE in
        if \<not> 0 < bullAmount then Inl TooSmall
        else case balanceOf tok (token w) this of
          None \<Rightarrow> Inl CallReverted
        | Some reserve \<Rightarrow>
            (if \<not> bullAmount \<le> reserve then Inl InsufficientReserve
             else (case checked_sub (userCredits (ledger w) msg_sender) creditAmount of
               Inl e \<Rightarrow> Inl e
             | Inr c \<Rightarrow>
                 (let debited = w\<lparr>ledger := (ledger w)\<lparr>userCredits :=
                                     (userCredits (ledger w))(msg_sender := c)\<rparr>\<rparr>
                  in (case transfer tok (ledger debited) this msg_sender bullAmount (token w) of
                    None \<Rightarrow> Inl CallReverted
                  | Some (ok, ts', calls) \<Rightarrow>
                      (let w1 = (reentered calls debited)\<lparr>token := ts'\<rparr>
                       in if \<not> ok then Inl TransferFailed
                          else Inr (w1\<lparr>events := events w1 @
                                     [Withdrawal msg_sender creditAmount bullAmount]\<rparr>)))))))"

definition withdraw :: "'ts IERC20 \<Rightarrow> address \<Rightarrow> address \<Rightarrow> uint256 \<Rightarrow> 'ts world \<Rightarrow> error + 'ts world" where
  "withdraw tok this msg_sender creditAmount = nonReentrant (withdraw_body tok this msg_sender creditAmount)"

text \<open>
  Two calls in a row, each committed or reverted on its own: \<^verbatim>\<open>deposit(d)\<close>,
  then \<^verbatim>\<open>withdraw(d * CREDIT_RATE)\<close> by the same caller.
\<close>

definition round_trip :: "'ts IERC20 \<Rightarrow> address \<Rightarrow> address \<Rightarrow> uint256 \<Rightarrow> 'ts world \<Rightarrow> 'ts world" where
  "round_trip tok this msg_sender d w =
     snd (transact (withdraw tok this msg_sender (d * CREDIT_RATE))
            (snd (transact (deposit tok this msg_sender d) w)))"

section \<open>A reference token\<close>

text \<open>
  Modelled from the spec: the asset-transfer capability of section 6, as
  \<^verbatim>\<open>contracts/MockBullToken.sol\<close> inherits it from the imported
  \<^verbatim>\<open>ERC20\<close>, which is not among the sources: a balance per account and an
  allowance per owner and spender; a transfer reverts when the balance (or, for
  \<^verbatim>\<open>transferFrom\<close>, the allowance) does not cover the amount and returns
  true otherwise. The constructor mints the initial supply to the deployer. This
  token never calls back into the ledger.
\<close>

record ERC20 =
  balances :: "address \<Rightarrow> uint256"
  allowances :: "address \<Rightarrow> address \<Rightarrow> uint256"

definition MockBullToken :: "address \<Rightarrow> uint256 \<Rightarrow> ERC20" where
  "MockBullToken msg_sender initialSupply =
     \<lparr>balances = (\<lambda>_. 0)(msg_sender := initialSupply), allowances = (\<lambda>_ _. 0)\<rparr>"

definition approve :: "address \<Rightarrow> address \<Rightarrow> uint256 \<Rightarrow> ERC20 \<Rightarrow> ERC20" where
  "approve msg_sender spender amount ts =
     ts\<lparr>allowances := (allowances ts)(msg_sender := (allowances ts msg_sender)(spender := amount))\<rparr>"

definition erc20_transfer :: "address \<Rightarrow> address \<Rightarrow> uint256 \<Rightarrow> ERC20
    \<Rightarrow> (bool \<times> ERC20 \<times> reentry list) option" where
  "erc20_transfer from to amount ts =
     (if from = 0 \<or> to = 0 then None
      else if \<not> amount \<le> balances ts from then None
      else let b = (balances ts)(from := balances ts from - amount)
           in case checked_add (b to) amount of
                Inl e \<Rightarrow> None
              | Inr c \<Rightarrow> Some (True, ts\<lparr>balances := b(to := c)\<rparr>, []))"

definition erc20_transferFrom :: "address \<Rightarrow> address \<Rightarrow> address \<Rightarrow> uint256 \<Rightarrow> ERC20
    \<Rightarrow> (bool \<times> ERC20 \<times> reentry list) option" where
  "erc20_transferFrom msg_sender from to amount ts =
     (if \<not> amount \<le> allowances ts from msg_sender then None
      else erc20_transfer from to amount
             (approve from msg_sender (allowances ts from msg_sender - amount) ts))"

definition erc20 :: "ERC20 IERC20" where
  "erc20 = \<lparr>balanceOf = (\<lambda>ts account. Some (balances ts account)),
             transfer = (\<lambda>st msg_sender to amount ts. erc20_transfer msg_sender to amount ts),
             transferFrom = (\<lambda>st msg_sender from to amount ts.
                               erc20_transferFrom msg_sender from to amount ts)\<rparr>"

section \<open>What the specification assumes of the token\<close>

text \<open>
  Modelled from the spec: section 5 treats a call of the capability as one step with
  two outcomes and a bounded side effect, the asset changing custody. \<open>moved\<close>
  says that between two states of the token exactly \<open>amount\<close> units left the
  holding of \<open>from\<close> and arrived in the holding of \<open>to\<close>, as unbounded
  integers; a token is \<open>faithful\<close> when every transfer between two different
  accounts that it reports as successful has moved the amount so.
\<close>

definition moved :: "'ts IERC20 \<Rightarrow> 'ts \<Rightarrow> 'ts \<Rightarrow> address \<Rightarrow> address \<Rightarrow> uint256 \<Rightarrow> bool" where
  "moved tok ts ts' from to amount =
     (case (balanceOf tok ts from, balanceOf tok ts to, balanceOf tok ts' from, balanceOf tok ts' to) of
        (Some bf, Some bt, Some bf', Some bt') \<Rightarrow>
          uint bf' = uint bf - uint amount \<and> uint bt' = uint bt + uint amount
      | _ \<Rightarrow> False)"

definition faithful :: "'ts IERC20 \<Rightarrow> bool" where
  "faithful tok \<longleftrightarrow>
     (\<forall>st msg_sender from to amount ts ts' calls.
        (transfer tok st msg_sender to amount ts = Some (True, ts', calls) \<and> msg_sender \<noteq> to
           \<longrightarrow> moved tok ts ts' msg_sender to amount) \<and>
        (transferFrom tok st msg_sender from to amount ts = Some (True, ts', calls) \<and> from \<noteq> to
           \<longrightarrow> moved tok ts ts' from to amount))"

text \<open>
  The functions without the guard are all owner-only. A token is an \<open>outsider\<close>
  to an address when none of the calls it makes back into the ledger, in any
  transfer, has that address as its \<^verbatim>\<open>msg.sender\<close>: it never calls back
  with that account's authority.
\<close>

definition outsider :: "'ts IERC20 \<Rightarrow> address \<Rightarrow> bool" where
  "outsider tok privileged \<longleftrightarrow>
     (\<forall>st msg_sender from to amount ts ok ts' calls.
        (transfer tok st msg_sender to amount ts = Some (ok, ts', calls)
           \<longrightarrow> privileged \<notin> fst ` set calls) \<and>
        (transferFrom tok st msg_sender from to amount ts = Some (ok, ts', calls)
           \<longrightarrow> privileged \<notin> fst ` set calls))"

section \<open>Concrete scenarios\<close>

text \<open>
  The accounts of the test suite: the deployer (and owner), two users, and the
  addresses of the two contracts.
\<close>

definition deployer :: address where "deployer = 1"
definition user1 :: address where "user1 = 2"
definition user2 :: address where "user2 = 3"
definition bull :: address where "bull = 7"
definition arcade :: address where "arcade = 9"

text \<open>
  The ledger as \<^verbatim>\<open>constructor(bull)\<close> leaves it, with a token of which
  \<open>user1\<close> holds 1000 units and has approved the ledger for 50.
\<close>

definition deployed :: ArcadeManager where
  "deployed = \<lparr>bullToken = bull, userCredits = (\<lambda>_. 0), owner = deployer, status = NOT_ENTERED\<rparr>"

definition fresh :: "ERC20 world" where
  "fresh = \<lparr>ledger = deployed, token = approve user1 arcade 50 (MockBullToken user1 1000), events = []\<rparr>"

text \<open>The same world seen from inside a guarded function: the guard is locked.\<close>

definition locked :: "ERC20 world" where
  "locked = fresh\<lparr>ledger := deployed\<lparr>status := ENTERED\<rparr>\<rparr>"

text \<open>The world after \<open>user1\<close> has deposited 5 units: 500 credits, 5 units in custody.\<close>

definition funded :: "ERC20 world" where
  "funded = \<lparr>ledger = deployed\<lparr>userCredits := (\<lambda>_. 0)(user1 := 500)\<rparr>,
              token = \<lparr>balances = (\<lambda>_. 0)(user1 := 995, arcade := 5),
                        allowances = (\<lambda>_ _. 0)(user1 := (\<lambda>_. 0)(arcade := 45))\<rparr>,
              events = [Deposit user1 5 500]\<rparr>"

text \<open>From there, after \<open>user1\<close> has withdrawn 250 credits: 2 units paid, 50 credits lost.\<close>

definition paid_out :: "ERC20 world" where
  "paid_out = \<lparr>ledger = deployed\<lparr>userCredits := (\<lambda>_. 0)(user1 := 250)\<rparr>,
                token = \<lparr>balances = (\<lambda>_. 0)(user1 := 997, arcade := 3),
                          allowances = (\<lambda>_ _. 0)(user1 := (\<lambda>_. 0)(arcade := 45))\<rparr>,
                events = [Deposit user1 5 500, Withdrawal user1 250 2]\<rparr>"

text \<open>Or, instead, after \<open>user1\<close> has spent 200 credits.\<close>

definition spent :: "ERC20 world" where
  "spent = funded\<lparr>ledger := deployed\<lparr>userCredits := (\<lambda>_. 0)(user1 := 300)\<rparr>,
                   events := [Deposit user1 5 500, CreditsSpent user1 200]\<rparr>"

text \<open>Or, instead, after \<open>user1\<close> has withdrawn all 500 credits.\<close>

definition settled :: "ERC20 world" where
  "settled = \<lparr>ledger = deployed,
               token = \<lparr>balances = (\<lambda>_. 0)(user1 := 1000, arcade := 0),
                         allowances = (\<lambda>_ _. 0)(user1 := (\<lambda>_. 0)(arcade := 45))\<rparr>,
               events = [Deposit user1 5 500, Withdrawal user1 500 5]\<rparr>"

text \<open>
  The world after the owner has awarded \<open>user2\<close> the largest amount a
  \<^verbatim>\<open>uint256\<close> holds, \<open>2 ^ 256 - 1\<close>.
\<close>

definition largest :: uint256 where
  "largest = 115792089237316195423570985008687907853269984665640564039457584007913129639935"

definition saturated :: "ERC20 world" where
  "saturated = fresh\<lparr>ledger := deployed\<lparr>userCredits := (\<lambda>_. 0)(user2 := largest)\<rparr>,
                     events := [WinningsAwarded user2 largest]\<rparr>"

text \<open>The world after the owner has awarded \<open>user2\<close> 500 credits instead.\<close>

definition awarded :: "ERC20 world" where
  "awarded = fresh\<lparr>ledger := deployed\<lparr>userCredits := (\<lambda>_. 0)(user2 := 500)\<rparr>,
                   events := [WinningsAwarded user2 500]\<rparr>"

text \<open>
  A world in which \<open>user1\<close> holds the whole of the largest supply a token can have
  and has approved the ledger for all of it, and \<open>2 ^ 255\<close>, an amount of which
  \<open>user1\<close> can dispose there.
\<close>

definition flush :: "ERC20 world" where
  "flush = \<lparr>ledger = deployed, token = approve user1 arcade largest (MockBullToken user1 largest),
             events = []\<rparr>"

definition huge :: uint256 where
  "huge = 57896044618658097711785492504343953926634992332820282019728792003956564819968"

text \<open>A token whose \<^verbatim>\<open>transfer\<close> reports failure by returning false.\<close>

definition refusing :: "ERC20 IERC20" where
  "refusing = erc20\<lparr>transfer := (\<lambda>st msg_sender to amount ts. Some (False, ts, []))\<rparr>"

text \<open>
  A token whose \<^verbatim>\<open>transfer\<close> reads the ledger before it does anything, and
  reverts unless it finds the guard locked and 250 credits left to \<open>user1\<close>.
\<close>

definition wary :: "ERC20 IERC20" where
  "wary = erc20\<lparr>transfer := (\<lambda>st msg_sender to amount ts.
             if status st = ENTERED \<and> getCredits st user1 = 250
             then erc20_transfer msg_sender to amount ts else None)\<rparr>"

text \<open>
  Worlds in which the deployer has handed the ownership of the ledger to the token
  contract, before and after the deposit of \<open>user1\<close>; and a token that, in every
  transfer it carries out, calls \<^verbatim>\<open>awardWinnings\<close> twice in its own name, for
  7 credits to each of the two users.
\<close>

definition handed_over :: "ERC20 world" where
  "handed_over = fresh\<lparr>ledger := deployed\<lparr>owner := bull\<rparr>,
                       events := [OwnershipTransferred deployer bull]\<rparr>"

definition handed_funded :: "ERC20 world" where
  "handed_funded = funded\<lparr>ledger := (ledger funded)\<lparr>owner := bull\<rparr>,
                          events := [Deposit user1 5 500, OwnershipTransferred deployer bull]\<rparr>"

definition gifts :: "reentry list" where
  "gifts = [(bull, AwardWinnings user1 7), (bull, AwardWinnings user2 7)]"

definition patron :: "ERC20 IERC20" where
  "patron = erc20\<lparr>
     transfer := (\<lambda>st msg_sender to amount ts.
        case erc20_transfer msg_sender to amount ts of
          None \<Rightarrow> None | Some (ok, ts', calls) \<Rightarrow> Some (ok, ts', gifts)),
     transferFrom := (\<lambda>st msg_sender from to amount ts.
        case erc20_transferFrom msg_sender from to amount ts of
          None \<Rightarrow> None | Some (ok, ts', calls) \<Rightarrow> Some (ok, ts', gifts))\<rparr>"

section \<open>Arithmetic and modifiers: basic facts\<close>

lemma checked_add_Inr: "checked_add a b = Inr c \<longleftrightarrow> uint a + uint b \<le> MAX_UINT256 \<and> c = a + b"
  by (auto simp: checked_add_def)

lemma checked_add_Inl: "checked_add a b = Inl e \<longleftrightarrow> \<not> uint a + uint b \<le> MAX_UINT256 \<and> e = Panic"
  by (auto simp: checked_add_def)

lemma checked_sub_Inr: "checked_sub a b = Inr c \<longleftrightarrow> uint b \<le> uint a \<and> c = a - b"
  by (auto simp: checked_sub_def)

lemma checked_sub_Inl: "checked_sub a b = Inl e \<longleftrightarrow> \<not> uint b \<le> uint a \<and> e = Panic"
  by (auto simp: checked_sub_def)

lemma checked_mul_Inr: "checked_mul a b = Inr c \<longleftrightarrow> uint a * uint b \<le> MAX_UINT256 \<and> c = a * b"
  by (auto simp: checked_mul_def)

lemma checked_mul_Inl: "checked_mul a b = Inl e \<longleftrightarrow> \<not> uint a * uint b \<le> MAX_UINT256 \<and> e = Panic"
  by (auto simp: checked_mul_def)

lemma uint_plus_exact: "uint a + uint b \<le> MAX_UINT256 \<Longrightarrow> uint (a + b :: uint256) = uint a + uint b"
  using uint_add_lem [of a b] by (simp add: MAX_UINT256_def)

lemma uint_minus_exact: "uint b \<le> uint a \<Longrightarrow> uint (a - b :: uint256) = uint a - uint b"
  using uint_sub_lem [of b a] by simp

lemma uint_times_exact: "uint a * uint b \<le> MAX_UINT256 \<Longrightarrow> uint (a * b :: uint256) = uint a * uint b"
  using uint_mult_lem [of a b] by (simp add: MAX_UINT256_def)

lemma uint_CREDIT_RATE: "uint CREDIT_RATE = 100"
  by (simp add: CREDIT_RATE_def)

lemma nonReentrant_locked:
  "status (ledger w) = ENTERED \<Longrightarrow> nonReentrant body w = Inl ReentrancyDetected"
  by (simp add: nonReentrant_def)

lemma nonReentrant_Inr:
  "nonReentrant body w = Inr w' \<longleftrightarrow>
     status (ledger w) = NOT_ENTERED \<and>
     (\<exists>w1. body (w\<lparr>ledger := (ledger w)\<lparr>status := ENTERED\<rparr>\<rparr>) = Inr w1 \<and>
           w' = w1\<lparr>ledger := (ledger w1)\<lparr>status := NOT_ENTERED\<rparr>\<rparr>)"
  by (cases "status (ledger w)") (auto simp: nonReentrant_def split: sum.splits)

lemma nonReentrant_Inl:
  "status (ledger w) = NOT_ENTERED \<Longrightarrow>
   body (w\<lparr>ledger := (ledger w)\<lparr>status := ENTERED\<rparr>\<rparr>) = Inl e \<Longrightarrow>
   nonReentrant body w = Inl e"
  by (simp add: nonReentrant_def)

lemma transact_Inl: "op w = Inl e \<Longrightarrow> transact op w = (Some e, w)"
  by (simp add: transact_def)

lemma snd_transact: "snd (transact op w) = (case op w of Inl e \<Rightarrow> w | Inr w' \<Rightarrow> w')"
  by (simp add: transact_def split: sum.splits)

lemma uint_div_CREDIT_RATE: "uint (amt div CREDIT_RATE) = uint amt div 100"
  by (simp add: uint_div uint_CREDIT_RATE)

lemma below_rate: "amt < CREDIT_RATE \<Longrightarrow> amt div CREDIT_RATE = 0"
  by (rule word_uint_eqI) (simp add: uint_div_CREDIT_RATE word_less_def uint_CREDIT_RATE)

lemma status_userCredits_swap:
  "l\<lparr>userCredits := f, status := g\<rparr> = l\<lparr>status := g, userCredits := f\<rparr>"
  by (cases l) simp

section \<open>Calls back into the ledger: what they can and cannot do\<close>

lemma awardWinnings_Inr:
  "awardWinnings s player amt w = Inr w' \<longleftrightarrow>
     s = owner (ledger w) \<and> player \<noteq> 0 \<and> 0 < amt \<and>
     uint (userCredits (ledger w) player) + uint amt \<le> MAX_UINT256 \<and>
     w' = w\<lparr>ledger := (ledger w)\<lparr>userCredits :=
              (userCredits (ledger w))(player := userCredits (ledger w) player + amt)\<rparr>,
            events := events w @ [WinningsAwarded player amt]\<rparr>"
  unfolding awardWinnings_def onlyOwner_def awardWinnings_body_def
  by (auto simp: checked_add_Inr checked_add_Inl split: option.splits sum.splits if_splits)

lemma transferOwnership_Inr:
  "transferOwnership s newOwner w = Inr w' \<longleftrightarrow>
     s = owner (ledger w) \<and> newOwner \<noteq> 0 \<and>
     w' = w\<lparr>ledger := (ledger w)\<lparr>owner := newOwner\<rparr>,
            events := events w @ [OwnershipTransferred (owner (ledger w)) newOwner]\<rparr>"
  unfolding transferOwnership_def onlyOwner_def transferOwnership_body_def by auto

lemma renounceOwnership_Inr:
  "renounceOwnership s w = Inr w' \<longleftrightarrow>
     s = owner (ledger w) \<and>
     w' = w\<lparr>ledger := (ledger w)\<lparr>owner := 0\<rparr>,
            events := events w @ [OwnershipTransferred (owner (ledger w)) 0]\<rparr>"
  unfolding renounceOwnership_def onlyOwner_def renounceOwnership_body_def by auto

text \<open>A call back from an account other than the owner changes nothing.\<close>

lemma reenter_outsider: "s \<noteq> owner (ledger w) \<Longrightarrow> reenter (s, c) w = w"
  by (cases c)
     (auto simp: snd_transact awardWinnings_Inr transferOwnership_Inr renounceOwnership_Inr
       split: sum.splits)

lemma reentered_outsider: "owner (ledger w) \<notin> fst ` set calls \<Longrightarrow> reentered calls w = w"
  unfolding reentered_def
proof (induction calls)
  case Nil
  then show ?case by simp
next
  case (Cons x xs)
  obtain s c where x: "x = (s, c)" by (cases x)
  from Cons.prems have "s \<noteq> owner (ledger w)" by (auto simp: x)
  then have "reenter x w = w" unfolding x by (rule reenter_outsider)
  with Cons show ?case by simp
qed

text \<open>
  Whoever makes them, calls back leave the guard, the token's address and the
  token's state alone, and take credits from nobody.
\<close>

lemma reenter_keeps:
  "status (ledger (reenter x w)) = status (ledger w)"
  "bullToken (ledger (reenter x w)) = bullToken (ledger w)"
  "token (reenter x w) = token w"
  "uint (userCredits (ledger w) b) \<le> uint (userCredits (ledger (reenter x w)) b)"
proof -
  obtain s c where x: "x = (s, c)" by (cases x)
  show "status (ledger (reenter x w)) = status (ledger w)"
    "bullToken (ledger (reenter x w)) = bullToken (ledger w)"
    "token (reenter x w) = token w"
    "uint (userCredits (ledger w) b) \<le> uint (userCredits (ledger (reenter x w)) b)"
    unfolding x
    by (cases c;
        auto simp: snd_transact awardWinnings_Inr transferOwnership_Inr renounceOwnership_Inr
          uint_plus_exact split: sum.splits)+
qed

lemma reentered_keeps:
  "status (ledger (reentered calls w)) = status (ledger w)"
  "bullToken (ledger (reentered calls w)) = bullToken (ledger w)"
  "token (reentered calls w) = token w"
  "uint (userCredits (ledger w) b) \<le> uint (userCredits (ledger (reentered calls w)) b)"
  unfolding reentered_def
proof (induction calls arbitrary: w)
  case Nil
  {
    case 1 show ?case by simp
  next
    case 2 show ?case by simp
  next
    case 3 show ?case by simp
  next
    case 4 show ?case by simp
  }
next
  case (Cons x xs)
  {
    case 1 show ?case by (simp add: Cons.IH(1) reenter_keeps(1))
  next
    case 2 show ?case by (simp add: Cons.IH(2) reenter_keeps(2))
  next
    case 3 show ?case by (simp add: Cons.IH(3) reenter_keeps(3))
  next
    case 4
    have "uint (userCredits (ledger w) b) \<le> uint (userCredits (ledger (reenter x w)) b)"
      by (rule reenter_keeps(4))
    also have "\<dots> \<le> uint (userCredits (ledger (fold reenter xs (reenter x w))) b)"
      by (rule Cons.IH(4))
    finally show ?case by simp
  }
qed

section \<open>When an operation succeeds\<close>

text \<open>
  Each guarded operation returns a world exactly when every one of its checks
  passes. The world it returns is the one the token's calls back have left, with
  the caller's credits, the token's state and the log updated, and the guard idle
  again.
\<close>

lemma deposit_body_Inr:
  "deposit_body tok this a amt W = Inr v \<longleftrightarrow>
     0 < amt \<and>
     (\<exists>ts' calls w1.
        transferFrom tok (ledger W) this a this amt (token W) = Some (True, ts', calls) \<and>
        w1 = (reentered calls W)\<lparr>token := ts'\<rparr> \<and>
        uint amt * 100 \<le> MAX_UINT256 \<and>
        uint (userCredits (ledger w1) a) + uint amt * 100 \<le> MAX_UINT256 \<and>
        v = w1\<lparr>ledger := (ledger w1)\<lparr>userCredits :=
                 (userCredits (ledger w1))(a := userCredits (ledger w1) a + amt * CREDIT_RATE)\<rparr>,
               events := events w1 @ [Deposit a amt (amt * CREDIT_RATE)]\<rparr>)"
proof (cases "transferFrom tok (ledger W) this a this amt (token W)")
  case None
  then show ?thesis by (simp add: deposit_body_def)
next
  case (Some r)
  obtain ok ts' calls where r: "r = (ok, ts', calls)" by (cases r)
  show ?thesis
    unfolding deposit_body_def Some r
    by (cases ok)
       (auto simp: Let_def checked_add_def checked_mul_def uint_CREDIT_RATE uint_times_exact)
qed


lemma deposit_Inr:
  "deposit tok this a amt w = Inr w' \<longleftrightarrow>
     status (ledger w) = NOT_ENTERED \<and> 0 < amt \<and>
     (\<exists>ts' calls w1.
        transferFrom tok ((ledger w)\<lparr>status := ENTERED\<rparr>) this a this amt (token w)
          = Some (True, ts', calls) \<and>
        w1 = reentered calls (w\<lparr>ledger := (ledger w)\<lparr>status := ENTERED\<rparr>\<rparr>) \<and>
        uint amt * 100 \<le> MAX_UINT256 \<and>
        uint (userCredits (ledger w1) a) + uint amt * 100 \<le> MAX_UINT256 \<and>
        w' = w1\<lparr>ledger := (ledger w1)\<lparr>userCredits :=
                 (userCredits (ledger w1))(a := userCredits (ledger w1) a + amt * CREDIT_RATE),
                 status := NOT_ENTERED\<rparr>,
               token := ts', events := events w1 @ [Deposit a amt (amt * CREDIT_RATE)]\<rparr>)"
  unfolding deposit_def nonReentrant_Inr deposit_body_Inr
  by (auto simp: status_userCredits_swap)

lemma spendCredits_Inr:
  "spendCredits a amt w = Inr w' \<longleftrightarrow>
     status (ledger w) = NOT_ENTERED \<and> 0 < amt \<and> amt \<le> userCredits (ledger w) a \<and>
     w' = w\<lparr>ledger := (ledger w)\<lparr>userCredits :=
              (userCredits (ledger w))(a := userCredits (ledger w) a - amt)\<rparr>,
            events := events w @ [CreditsSpent a amt]\<rparr>"
  unfolding spendCredits_def nonReentrant_Inr spendCredits_body_def
  by (auto simp: checked_sub_Inr checked_sub_Inl word_le_def
      split: option.splits sum.splits if_splits)

lemma withdraw_body_Inr:
  "withdraw_body tok this a amt W = Inr v \<longleftrightarrow>
     0 < amt \<and> amt \<le> userCredits (ledger W) a \<and> 0 < amt div CREDIT_RATE \<and>
     (\<exists>reserve ts' calls st w1.
        balanceOf tok (token W) this = Some reserve \<and> amt div CREDIT_RATE \<le> reserve \<and>
        st = (ledger W)\<lparr>userCredits := (userCredits (ledger W))(a := userCredits (ledger W) a - amt)\<rparr> \<and>
        transfer tok st this a (amt div CREDIT_RATE) (token W) = Some (True, ts', calls) \<and>
        w1 = (reentered calls (W\<lparr>ledger := st\<rparr>))\<lparr>token := ts'\<rparr> \<and>
        v = w1\<lparr>events := events w1 @ [Withdrawal a amt (amt div CREDIT_RATE)]\<rparr>)"
proof (cases "balanceOf tok (token W) this")
  case None
  then show ?thesis by (simp add: withdraw_body_def Let_def)
next
  case (Some reserve)
  let ?st = "(ledger W)\<lparr>userCredits := (userCredits (ledger W))(a := userCredits (ledger W) a - amt)\<rparr>"
  show ?thesis
  proof (cases "transfer tok ?st this a (amt div CREDIT_RATE) (token W)")
    case None
    then show ?thesis
      unfolding withdraw_body_def Some
      by (simp add: Let_def checked_sub_def word_le_def)
  next
    case (Some r)
    obtain ok ts' calls where r: "r = (ok, ts', calls)" by (cases r)
    show ?thesis
      unfolding withdraw_body_def \<open>balanceOf tok (token W) this = Some reserve\<close>
      using Some unfolding r
      by (cases ok) (auto simp: Let_def checked_sub_def word_le_def)
  qed
qed

lemma withdraw_Inr:
  "withdraw tok this a amt w = Inr w' \<longleftrightarrow>
     status (ledger w) = NOT_ENTERED \<and> 0 < amt \<and> amt \<le> userCredits (ledger w) a \<and>
     0 < amt div CREDIT_RATE \<and>
     (\<exists>reserve ts' calls st w1.
        balanceOf tok (token w) this = Some reserve \<and> amt div CREDIT_RATE \<le> reserve \<and>
        st = (ledger w)\<lparr>status := ENTERED, userCredits :=
                (userCredits (ledger w))(a := userCredits (ledger w) a - amt)\<rparr> \<and>
        transfer tok st this a (amt div CREDIT_RATE) (token w) = Some (True, ts', calls) \<and>
        w1 = reentered calls (w\<lparr>ledger := st\<rparr>) \<and>
        w' = w1\<lparr>ledger := (ledger w1)\<lparr>status := NOT_ENTERED\<rparr>, token := ts',
               events := events w1 @ [Withdrawal a amt (amt div CREDIT_RATE)]\<rparr>)"
  unfolding withdraw_def nonReentrant_Inr withdraw_body_Inr
  by (auto simp: status_userCredits_swap)

text \<open>
  The guard is idle after the constructor, and idle after a call, committed or
  reverted, that found it idle: a call that is not made from inside a guarded
  function finds the guard idle.
\<close>

lemma constructor_idle: "constructor msg_sender token_address = Inr l \<Longrightarrow> status l = NOT_ENTERED"
  by (auto simp: constructor_def split: if_splits)

lemma guard_idle_after_call:
  assumes "status (ledger w) = NOT_ENTERED"
  shows "status (ledger (snd (transact (deposit tok this a x) w))) = NOT_ENTERED"
    and "status (ledger (snd (transact (spendCredits a x) w))) = NOT_ENTERED"
    and "status (ledger (snd (transact (withdraw tok this a x) w))) = NOT_ENTERED"
    and "status (ledger (snd (transact (awardWinnings a player x) w))) = NOT_ENTERED"
    and "status (ledger (snd (transact (transferOwnership a player) w))) = NOT_ENTERED"
    and "status (ledger (snd (transact (renounceOwnership a) w))) = NOT_ENTERED"
  using assms
  by (auto simp: snd_transact deposit_Inr spendCredits_Inr withdraw_Inr awardWinnings_Inr
      transferOwnership_Inr renounceOwnership_Inr split: sum.splits)

section \<open>The reference token and the scenarios\<close>

lemma faithful_erc20: "faithful erc20"
  unfolding faithful_def moved_def erc20_def erc20_transfer_def erc20_transferFrom_def approve_def
  by (auto simp: checked_add_Inr checked_add_Inl Let_def word_le_def uint_minus_exact uint_plus_exact
      split: if_splits sum.splits)

lemma erc20_transfer_quiet: "erc20_transfer f t amt ts = Some (ok, ts', calls) \<Longrightarrow> calls = []"
  by (simp add: erc20_transfer_def Let_def split: if_splits sum.splits)

lemma erc20_transferFrom_quiet:
  "erc20_transferFrom s f t amt ts = Some (ok, ts', calls) \<Longrightarrow> calls = []"
  by (simp add: erc20_transferFrom_def split: if_splits) (rule erc20_transfer_quiet)

lemma outsider_erc20: "outsider erc20 privileged"
proof -
  have "privileged \<notin> fst ` set calls"
    if "erc20_transfer f t amt ts = Some (ok, ts', calls)" for f t amt ts ok ts' calls
    using erc20_transfer_quiet [OF that] by simp
  moreover have "privileged \<notin> fst ` set calls"
    if "erc20_transferFrom s f t amt ts = Some (ok, ts', calls)" for s f t amt ts ok ts' calls
    using erc20_transferFrom_quiet [OF that] by simp
  ultimately show ?thesis
    unfolding outsider_def erc20_def by simp
qed

lemmas scenario_defs = deployer_def user1_def user2_def bull_def arcade_def deployed_def
  fresh_def locked_def funded_def paid_out_def spent_def settled_def saturated_def largest_def
  awarded_def flush_def huge_def handed_over_def handed_funded_def gifts_def

lemmas erc20_defs = erc20_def erc20_transfer_def erc20_transferFrom_def approve_def
  MockBullToken_def checked_add_def checked_sub_def checked_mul_def MAX_UINT256_def

lemmas ledger_defs = deposit_def deposit_body_def spendCredits_def spendCredits_body_def
  awardWinnings_def awardWinnings_body_def withdraw_def withdraw_body_def
  transferOwnership_def transferOwnership_body_def renounceOwnership_def
  renounceOwnership_body_def reentered_def transact_def
  nonReentrant_def onlyOwner_def CREDIT_RATE_def

lemma constructor_deployed: "constructor deployer bull = Inr deployed"
  by (simp add: constructor_def scenario_defs)

lemma ownership_handed_over: "transferOwnership deployer bull fresh = Inr handed_over"
  by (simp add: ledger_defs scenario_defs)

section \<open>Calls back during a transfer\<close>

lemma outsider_transfer:
  "outsider tok p \<Longrightarrow> transfer tok st s t amt ts = Some (ok, ts', calls) \<Longrightarrow> p \<notin> fst ` set calls"
  unfolding outsider_def by blast

lemma outsider_transferFrom:
  "outsider tok p \<Longrightarrow> transferFrom tok st s f t amt ts = Some (ok, ts', calls) \<Longrightarrow>
   p \<notin> fst ` set calls"
  unfolding outsider_def by blast

text \<open>
  What a withdraw that succeeds has done to the caller's credits: the debit was
  within the balance, calls back can only have added to what it left, and without
  a call back from the owner nothing was added.
\<close>

lemma withdraw_debits_before:
  assumes "withdraw tok this a amt w = Inr w'"
  shows "uint amt \<le> uint (userCredits (ledger w) a)"
    and "uint (userCredits (ledger w) a) - uint amt \<le> uint (userCredits (ledger w') a)"
    and "outsider tok (owner (ledger w)) \<Longrightarrow>
         uint (userCredits (ledger w') a) = uint (userCredits (ledger w) a) - uint amt"
    and "outsider tok (owner (ledger w)) \<Longrightarrow> b \<noteq> a \<Longrightarrow>
         userCredits (ledger w') b = userCredits (ledger w) b"
    and "bullToken (ledger w') = bullToken (ledger w)"
proof -
  let ?c = "userCredits (ledger w) a"
  let ?st = "(ledger w)\<lparr>status := ENTERED, userCredits := (userCredits (ledger w))(a := ?c - amt)\<rparr>"
  let ?w1 = "reentered calls (w\<lparr>ledger := ?st\<rparr>)"
  from assms obtain reserve ts' calls where
    le: "amt \<le> ?c" and
    call: "transfer tok ?st this a (amt div CREDIT_RATE) (token w) = Some (True, ts', calls)" and
    w': "w' = (reentered calls (w\<lparr>ledger := ?st\<rparr>))
               \<lparr>ledger := (ledger (reentered calls (w\<lparr>ledger := ?st\<rparr>)))\<lparr>status := NOT_ENTERED\<rparr>,
                 token := ts',
                 events := events (reentered calls (w\<lparr>ledger := ?st\<rparr>))
                             @ [Withdrawal a amt (amt div CREDIT_RATE)]\<rparr>"
    unfolding withdraw_Inr by blast
  show 1: "uint amt \<le> uint ?c" using le by (simp add: word_le_def)
  have debit: "uint (userCredits ?st a) = uint ?c - uint amt"
    using le by (simp add: uint_minus_exact word_le_def)
  have "uint (userCredits (ledger (w\<lparr>ledger := ?st\<rparr>)) a)
          \<le> uint (userCredits (ledger (reentered calls (w\<lparr>ledger := ?st\<rparr>))) a)"
    by (rule reentered_keeps(4))
  then show "uint ?c - uint amt \<le> uint (userCredits (ledger w') a)"
    using debit by (simp add: w')
  have same: "reentered calls (w\<lparr>ledger := ?st\<rparr>) = w\<lparr>ledger := ?st\<rparr>"
    if "outsider tok (owner (ledger w))"
  proof -
    from that call have "owner (ledger (w\<lparr>ledger := ?st\<rparr>)) \<notin> fst ` set calls"
      by (simp add: outsider_transfer)
    then show ?thesis by (rule reentered_outsider)
  qed
  show "uint (userCredits (ledger w') a) = uint ?c - uint amt"
    if "outsider tok (owner (ledger w))"
    using debit by (simp add: w' same [OF that])
  show "userCredits (ledger w') b = userCredits (ledger w) b"
    if "outsider tok (owner (ledger w))" "b \<noteq> a"
    using that(2) by (simp add: w' same [OF that(1)])
  have "bullToken (ledger (reentered calls (w\<lparr>ledger := ?st\<rparr>))) = bullToken (ledger (w\<lparr>ledger := ?st\<rparr>))"
    by (rule reentered_keeps(2))
  then show "bullToken (ledger w') = bullToken (ledger w)"
    by (simp add: w')
qed

text \<open>The same for a deposit that succeeds.\<close>

lemma deposit_credits_after:
  assumes "deposit tok this a amt w = Inr w'"
  shows "outsider tok (owner (ledger w)) \<Longrightarrow> b \<noteq> a \<Longrightarrow>
         userCredits (ledger w') b = userCredits (ledger w) b"
    and "bullToken (ledger w') = bullToken (ledger w)"
proof -
  let ?W = "w\<lparr>ledger := (ledger w)\<lparr>status := ENTERED\<rparr>\<rparr>"
  from assms obtain ts' calls where
    call: "transferFrom tok ((ledger w)\<lparr>status := ENTERED\<rparr>) this a this amt (token w)
             = Some (True, ts', calls)" and
    w': "w' = (reentered calls ?W)\<lparr>ledger := (ledger (reentered calls ?W))\<lparr>userCredits :=
                 (userCredits (ledger (reentered calls ?W)))
                   (a := userCredits (ledger (reentered calls ?W)) a + amt * CREDIT_RATE),
                 status := NOT_ENTERED\<rparr>,
               token := ts',
               events := events (reentered calls ?W) @ [Deposit a amt (amt * CREDIT_RATE)]\<rparr>"
    unfolding deposit_Inr by blast
  show "userCredits (ledger w') b = userCredits (ledger w) b"
    if "outsider tok (owner (ledger w))" "b \<noteq> a"
  proof -
    from that(1) call have "owner (ledger ?W) \<notin> fst ` set calls"
      by (simp add: outsider_transferFrom)
    then have "reentered calls ?W = ?W" by (rule reentered_outsider)
    then show ?thesis using that(2) by (simp add: w')
  qed
  have "bullToken (ledger (reentered calls ?W)) = bullToken (ledger ?W)"
    by (rule reentered_keeps(2))
  then show "bullToken (ledger w') = bullToken (ledger w)"
    by (simp add: w')
qed

section \<open>The guard and the order of the checks\<close>

text \<open>
  Claim C6 says that deposit, spendCredits and withdraw validate their argument and
  the balance before they acquire the reentrancy guard, so that deposit(0) called
  while the guard is locked fails with InvalidAmount. The contract does the
  opposite: \<^verbatim>\<open>nonReentrant\<close> stands in the header of each of the three
  functions and runs before the first \<^verbatim>\<open>require\<close> of the body. At the
  concrete input below, deposit(0) under a locked guard fails with
  ReentrancyDetected, not with InvalidAmount.
\<close>

theorem deposit_zero_while_locked_counterexample:
  "deposit erc20 arcade user1 0 locked = Inl ReentrancyDetected \<and>
   deposit erc20 arcade user1 0 locked \<noteq> Inl InvalidAmount"
  by (simp add: deposit_def nonReentrant_def locked_def fresh_def deployed_def)

text \<open>
  Claim C6, amended: the guard is checked before any argument or balance is
  validated. Called while the guard is locked, deposit, spendCredits and withdraw
  fail with ReentrancyDetected whatever the caller, the amount and the balances
  are, deposit(0) included; a zero amount is answered with InvalidAmount only when
  the guard is idle.
\<close>

theorem guard_checked_before_validation:
  "(status (ledger w) = ENTERED \<longrightarrow>
      deposit tok this a x w = Inl ReentrancyDetected \<and>
      spendCredits a x w = Inl ReentrancyDetected \<and>
      withdraw tok this a x w = Inl ReentrancyDetected) \<and>
   (status (ledger w) = NOT_ENTERED \<longrightarrow>
      deposit tok this a 0 w = Inl InvalidAmount \<and>
      spendCredits a 0 w = Inl InvalidAmount \<and>
      withdraw tok this a 0 w = Inl InvalidAmount)"
  by (simp add: deposit_def spendCredits_def withdraw_def nonReentrant_def
      deposit_body_def spendCredits_body_def withdraw_body_def)

theorem guard_checked_before_validation_witness:
  "status (ledger locked) = ENTERED \<and>
   deposit erc20 arcade user1 0 locked = Inl ReentrancyDetected \<and>
   spendCredits user1 0 locked = Inl ReentrancyDetected \<and>
   withdraw erc20 arcade user1 0 locked = Inl ReentrancyDetected \<and>
   status (ledger fresh) = NOT_ENTERED \<and>
   deposit erc20 arcade user1 0 fresh = Inl InvalidAmount \<and>
   spendCredits user1 0 fresh = Inl InvalidAmount \<and>
   withdraw erc20 arcade user1 0 fresh = Inl InvalidAmount"
proof -
  have h: "status (ledger locked) = ENTERED"
    by (simp add: locked_def fresh_def deployed_def)
  have i: "status (ledger fresh) = NOT_ENTERED"
    by (simp add: fresh_def deployed_def)
  show ?thesis
    using h i
      guard_checked_before_validation [of locked erc20 arcade user1 0]
      guard_checked_before_validation [of fresh erc20 arcade user1 0]
    by simp
qed

section \<open>Withdrawal\<close>

text \<open>
  Claim C1 says that a withdraw(creditAmount) that succeeds debits the full
  creditAmount from the caller's balance. \<^verbatim>\<open>awardWinnings\<close> has no
  \<^verbatim>\<open>nonReentrant\<close>, so the token can call it while withdraw is calling
  the token. Once the deployer has handed the ownership to the token contract, a
  token that awards 7 credits to each user during every transfer makes the
  withdrawal of 250 credits by \<open>user1\<close>, which succeeds, take the balance from
  500 to 257.
\<close>

theorem withdraw_reentrant_award_counterexample:
  "transferOwnership deployer bull funded = Inr handed_funded \<and>
   userCredits (ledger handed_funded) user1 = 500 \<and> (0 :: uint256) < 250 \<and>
   fst (transact (withdraw patron arcade user1 250) handed_funded) = None \<and>
   userCredits (ledger (snd (transact (withdraw patron arcade user1 250) handed_funded))) user1 = 257 \<and>
   userCredits (ledger (snd (transact (withdraw patron arcade user1 250) handed_funded))) user1
     \<noteq> userCredits (ledger handed_funded) user1 - 250"
  by (simp add: ledger_defs scenario_defs erc20_defs patron_def)

text \<open>
  Claim C1, amended: a withdraw(creditAmount) that succeeds (so creditAmount is
  positive and within the caller's balance) has taken the full creditAmount off the
  caller's balance before it calls the token: the storage on which transfer is
  called holds exactly creditAmount less for the caller, as integers. It has called
  transfer once, from the ledger to the caller, for floor(creditAmount / 100)
  units, so that of the credits debited creditAmount mod 100 are paid for by
  nothing. What the call leaves is the debited ledger as the token's calls back
  have left it, and the Withdrawal event with both amounts after theirs. The
  caller's balance afterwards is never below the debited one, and it is exactly
  creditAmount lower than before the call, the log longer by the one event, when
  the token does not call back with the owner's authority. A faithful token has
  moved exactly floor(creditAmount / 100) units from the ledger's holding to the
  caller's (the caller being another account than the ledger itself).
\<close>

theorem withdraw_debits_requested_amount:
  assumes "withdraw tok this a amt w = Inr w'"
  shows "0 < amt \<and> amt \<le> userCredits (ledger w) a \<and>
     (\<exists>st ts' calls.
        st = (ledger w)\<lparr>status := ENTERED, userCredits :=
                (userCredits (ledger w))(a := userCredits (ledger w) a - amt)\<rparr> \<and>
        uint (userCredits st a) = uint (userCredits (ledger w) a) - uint amt \<and>
        transfer tok st this a (amt div CREDIT_RATE) (token w) = Some (True, ts', calls) \<and>
        token w' = ts' \<and>
        ledger w' = (ledger (reentered calls (w\<lparr>ledger := st\<rparr>)))\<lparr>status := NOT_ENTERED\<rparr> \<and>
        events w' = events (reentered calls (w\<lparr>ledger := st\<rparr>))
                      @ [Withdrawal a amt (amt div CREDIT_RATE)]) \<and>
     uint (amt div CREDIT_RATE) = uint amt div 100 \<and>
     uint amt - uint CREDIT_RATE * uint (amt div CREDIT_RATE) = uint amt mod 100 \<and>
     uint (userCredits (ledger w) a) - uint amt \<le> uint (userCredits (ledger w') a) \<and>
     (outsider tok (owner (ledger w)) \<longrightarrow>
        uint (userCredits (ledger w') a) = uint (userCredits (ledger w) a) - uint amt \<and>
        events w' = events w @ [Withdrawal a amt (amt div CREDIT_RATE)]) \<and>
     (faithful tok \<and> a \<noteq> this \<longrightarrow> moved tok (token w) (token w') this a (amt div CREDIT_RATE))"
proof -
  let ?c = "userCredits (ledger w) a"
  let ?st = "(ledger w)\<lparr>status := ENTERED, userCredits := (userCredits (ledger w))(a := ?c - amt)\<rparr>"
  from assms obtain reserve ts' calls where
    pos: "0 < amt" and le: "amt \<le> ?c" and
    call: "transfer tok ?st this a (amt div CREDIT_RATE) (token w) = Some (True, ts', calls)" and
    w': "w' = (reentered calls (w\<lparr>ledger := ?st\<rparr>))
               \<lparr>ledger := (ledger (reentered calls (w\<lparr>ledger := ?st\<rparr>)))\<lparr>status := NOT_ENTERED\<rparr>,
                 token := ts',
                 events := events (reentered calls (w\<lparr>ledger := ?st\<rparr>))
                             @ [Withdrawal a amt (amt div CREDIT_RATE)]\<rparr>"
    unfolding withdraw_Inr by blast
  let ?w1 = "reentered calls (w\<lparr>ledger := ?st\<rparr>)"
  have debit: "uint (userCredits ?st a) = uint ?c - uint amt"
    using le by (simp add: uint_minus_exact word_le_def)
  have seen: "\<exists>st ts' calls.
        st = ?st \<and> uint (userCredits st a) = uint ?c - uint amt \<and>
        transfer tok st this a (amt div CREDIT_RATE) (token w) = Some (True, ts', calls) \<and>
        token w' = ts' \<and>
        ledger w' = (ledger (reentered calls (w\<lparr>ledger := st\<rparr>)))\<lparr>status := NOT_ENTERED\<rparr> \<and>
        events w' = events (reentered calls (w\<lparr>ledger := st\<rparr>))
                      @ [Withdrawal a amt (amt div CREDIT_RATE)]"
    using debit call by (intro exI [of _ ?st] exI [of _ ts'] exI [of _ calls]) (simp add: w')
  have "uint (userCredits (ledger (w\<lparr>ledger := ?st\<rparr>)) a) \<le> uint (userCredits (ledger ?w1) a)"
    by (rule reentered_keeps(4))
  then have floor: "uint ?c - uint amt \<le> uint (userCredits (ledger w') a)"
    using debit by (simp add: w')
  have rest: "uint amt - uint CREDIT_RATE * uint (amt div CREDIT_RATE) = uint amt mod 100"
    by (simp add: uint_div_CREDIT_RATE uint_CREDIT_RATE minus_mult_div_eq_mod)
  have quiet: "uint (userCredits (ledger w') a) = uint ?c - uint amt \<and>
      events w' = events w @ [Withdrawal a amt (amt div CREDIT_RATE)]"
    if "outsider tok (owner (ledger w))"
  proof -
    from that call have "owner (ledger (w\<lparr>ledger := ?st\<rparr>)) \<notin> fst ` set calls"
      by (simp add: outsider_transfer)
    then have "?w1 = w\<lparr>ledger := ?st\<rparr>" by (rule reentered_outsider)
    then show ?thesis using debit by (simp add: w')
  qed
  have asset: "moved tok (token w) (token w') this a (amt div CREDIT_RATE)"
    if "faithful tok" "a \<noteq> this"
  proof -
    have "transfer tok ?st this a (amt div CREDIT_RATE) (token w) = Some (True, token w', calls)"
      using call by (simp add: w')
    with that show ?thesis unfolding faithful_def by blast
  qed
  show ?thesis
    using pos le seen floor rest quiet asset by (simp add: uint_div_CREDIT_RATE)
qed

theorem withdraw_debits_requested_amount_witness:
  "withdraw erc20 arcade user1 250 funded = Inr paid_out \<and>
   userCredits (ledger funded) user1 = 500 \<and>
   outsider erc20 (owner (ledger funded)) \<and> faithful erc20 \<and> user1 \<noteq> arcade \<and>
   uint (userCredits (ledger paid_out) user1) = uint (userCredits (ledger funded) user1) - uint (250 :: uint256) \<and>
   events paid_out = events funded @ [Withdrawal user1 250 2] \<and>
   uint (250 :: uint256) - uint CREDIT_RATE * uint (2 :: uint256) = 50 \<and>
   moved erc20 (token funded) (token paid_out) arcade user1 2 \<and>
   fst (transact (withdraw patron arcade user1 250) handed_funded) = None \<and>
   userCredits (ledger handed_funded) user1 = 500 \<and>
   userCredits (ledger (snd (transact (withdraw patron arcade user1 250) handed_funded))) user1 = 257 \<and>
   uint (userCredits (ledger handed_funded) user1) - uint (250 :: uint256)
     \<le> uint (userCredits (ledger (snd (transact (withdraw patron arcade user1 250) handed_funded))) user1)"
proof -
  have h: "withdraw erc20 arcade user1 250 funded = Inr paid_out"
    by (simp add: ledger_defs scenario_defs erc20_defs fun_eq_iff)
  have ne: "user1 \<noteq> arcade" by (simp add: user1_def arcade_def)
  have two: "250 div CREDIT_RATE = 2" by (simp add: CREDIT_RATE_def)
  have was: "userCredits (ledger funded) user1 = 500" "userCredits (ledger handed_funded) user1 = 500"
    by (simp_all add: scenario_defs)
  have ok: "fst (transact (withdraw patron arcade user1 250) handed_funded) = None"
    by (simp add: ledger_defs scenario_defs erc20_defs patron_def)
  then have k: "withdraw patron arcade user1 250 handed_funded
      = Inr (snd (transact (withdraw patron arcade user1 250) handed_funded))"
    by (cases "withdraw patron arcade user1 250 handed_funded") (simp_all add: transact_def)
  have now: "userCredits (ledger (snd (transact (withdraw patron arcade user1 250) handed_funded))) user1 = 257"
    by (simp add: ledger_defs scenario_defs erc20_defs patron_def)
  show ?thesis
    using withdraw_debits_requested_amount [OF h] withdraw_debits_requested_amount [OF k]
      h ne was ok now faithful_erc20 outsider_erc20 [of "owner (ledger funded)"]
    by (simp add: two uint_CREDIT_RATE)
qed

text \<open>
  Claim C9: with the guard idle, as it is at every call not made from inside a
  guarded function, a withdraw of a positive amount below the credit rate, by a
  caller whose balance covers it, fails with TooSmall and changes nothing: neither
  the caller's balance nor the token's state, hence the ledger's custody.
  withdraw(50) is the witness.
\<close>

theorem withdraw_below_rate_too_small:
  assumes "status (ledger w) = NOT_ENTERED" and "0 < amt" and "amt < CREDIT_RATE"
    and "amt \<le> userCredits (ledger w) a"
  shows "transact (withdraw tok this a amt) w = (Some TooSmall, w)"
proof -
  have "withdraw_body tok this a amt (w\<lparr>ledger := (ledger w)\<lparr>status := ENTERED\<rparr>\<rparr>) = Inl TooSmall"
    using assms by (simp add: withdraw_body_def below_rate)
  then have "withdraw tok this a amt w = Inl TooSmall"
    using assms(1) by (simp add: withdraw_def nonReentrant_Inl)
  then show ?thesis by (rule transact_Inl)
qed

theorem withdraw_below_rate_too_small_witness:
  "status (ledger funded) = NOT_ENTERED \<and> (0 :: uint256) < 50 \<and> 50 < CREDIT_RATE \<and>
   50 \<le> userCredits (ledger funded) user1 \<and>
   transact (withdraw erc20 arcade user1 50) funded = (Some TooSmall, funded)"
proof -
  have h1: "status (ledger funded) = NOT_ENTERED" by (simp add: scenario_defs)
  have h2: "(0 :: uint256) < 50" by simp
  have h3: "50 < CREDIT_RATE" by (simp add: CREDIT_RATE_def)
  have h4: "50 \<le> userCredits (ledger funded) user1" by (simp add: scenario_defs)
  show ?thesis
    using h1 h2 h3 h4 withdraw_below_rate_too_small [OF h1 h2 h3 h4, of erc20 arcade] by simp
qed

text \<open>
  Claim C2: when every check of withdraw passes and the token's transfer, called on
  the debited ledger, returns false, withdraw reverts with TransferFailed, and the
  world after the call is the world before it: the debit is not there for any later
  operation to see, nor is anything the token did before it returned false.
\<close>

theorem withdraw_failed_transfer_rolls_back:
  assumes "status (ledger w) = NOT_ENTERED" and "0 < amt" and "amt \<le> userCredits (ledger w) a"
    and "0 < amt div CREDIT_RATE"
    and "balanceOf tok (token w) this = Some reserve" and "amt div CREDIT_RATE \<le> reserve"
    and "transfer tok ((ledger w)\<lparr>status := ENTERED, userCredits :=
                        (userCredits (ledger w))(a := userCredits (ledger w) a - amt)\<rparr>)
           this a (amt div CREDIT_RATE) (token w) = Some (False, ts', calls)"
  shows "withdraw tok this a amt w = Inl TransferFailed \<and>
         transact (withdraw tok this a amt) w = (Some TransferFailed, w)"
proof -
  have "withdraw_body tok this a amt (w\<lparr>ledger := (ledger w)\<lparr>status := ENTERED\<rparr>\<rparr>) = Inl TransferFailed"
    using assms by (simp add: withdraw_body_def checked_sub_def word_le_def)
  then have "withdraw tok this a amt w = Inl TransferFailed"
    using assms(1) by (simp add: withdraw_def nonReentrant_Inl)
  then show ?thesis by (simp add: transact_Inl)
qed

theorem withdraw_failed_transfer_rolls_back_witness:
  "status (ledger funded) = NOT_ENTERED \<and> (0 :: uint256) < 250 \<and>
   250 \<le> userCredits (ledger funded) user1 \<and> 0 < 250 div CREDIT_RATE \<and>
   balanceOf refusing (token funded) arcade = Some 5 \<and> 250 div CREDIT_RATE \<le> (5 :: uint256) \<and>
   transfer refusing ((ledger funded)\<lparr>status := ENTERED, userCredits :=
        (userCredits (ledger funded))(user1 := userCredits (ledger funded) user1 - 250)\<rparr>)
     arcade user1 (250 div CREDIT_RATE) (token funded) = Some (False, token funded, []) \<and>
   withdraw refusing arcade user1 250 funded = Inl TransferFailed \<and>
   transact (withdraw refusing arcade user1 250) funded = (Some TransferFailed, funded)"
proof -
  have h1: "status (ledger funded) = NOT_ENTERED" by (simp add: scenario_defs)
  have h2: "(0 :: uint256) < 250" by simp
  have h3: "250 \<le> userCredits (ledger funded) user1" by (simp add: scenario_defs)
  have h4: "0 < 250 div CREDIT_RATE" by (simp add: CREDIT_RATE_def)
  have h5: "balanceOf refusing (token funded) arcade = Some 5"
    by (simp add: refusing_def erc20_def scenario_defs)
  have h6: "250 div CREDIT_RATE \<le> (5 :: uint256)" by (simp add: CREDIT_RATE_def)
  have h7: "transfer refusing ((ledger funded)\<lparr>status := ENTERED, userCredits :=
        (userCredits (ledger funded))(user1 := userCredits (ledger funded) user1 - 250)\<rparr>)
     arcade user1 (250 div CREDIT_RATE) (token funded) = Some (False, token funded, [])"
    by (simp add: refusing_def)
  show ?thesis
    using h1 h2 h3 h4 h5 h6 h7 withdraw_failed_transfer_rolls_back [OF h1 h2 h3 h4 h5 h6 h7]
    by simp
qed

text \<open>
  Claim C3: withdraw debits before it calls the token. The token's transfer is a
  function of the ledger's storage as it is when the call is made; the result of
  withdraw depends on that function only at storages in which the guard is locked
  and the caller's balance is already creditAmount lower than before the call. Two
  tokens that agree there (and on balanceOf) give the same withdraw, whatever they
  would do on seeing any other storage, the storage before the debit among them. So
  a read of the caller's credits from inside the transfer returns the reduced
  balance. In the witness, a token that reverts unless it reads the reduced balance
  under a locked guard lets the withdrawal through.
\<close>

theorem withdraw_debits_before_transfer:
  assumes "balanceOf tok' = balanceOf tok"
    and "\<forall>st. status st = ENTERED \<and>
              uint (userCredits st a) = uint (userCredits (ledger w) a) - uint amt
            \<longrightarrow> transfer tok' st = transfer tok st"
  shows "withdraw tok' this a amt w = withdraw tok this a amt w"
proof -
  let ?W = "w\<lparr>ledger := (ledger w)\<lparr>status := ENTERED\<rparr>\<rparr>"
  let ?st = "(ledger w)\<lparr>status := ENTERED, userCredits :=
               (userCredits (ledger w))(a := userCredits (ledger w) a - amt)\<rparr>"
  have body: "withdraw_body tok' this a amt ?W = withdraw_body tok this a amt ?W"
  proof (cases "amt \<le> userCredits (ledger w) a")
    case True
    then have "status ?st = ENTERED \<and>
        uint (userCredits ?st a) = uint (userCredits (ledger w) a) - uint amt"
      by (simp add: uint_minus_exact word_le_def)
    with assms(2) have "transfer tok' ?st = transfer tok ?st" by blast
    then show ?thesis
      using True assms(1)
      by (auto simp: withdraw_body_def Let_def checked_sub_def word_le_def split: option.splits)
  next
    case False
    then show ?thesis by (simp add: withdraw_body_def)
  qed
  show ?thesis
    unfolding withdraw_def nonReentrant_def body ..
qed

theorem withdraw_debits_before_transfer_witness:
  "balanceOf wary = balanceOf erc20 \<and>
   withdraw wary arcade user1 250 funded = withdraw erc20 arcade user1 250 funded \<and>
   withdraw erc20 arcade user1 250 funded = Inr paid_out \<and>
   transfer wary (ledger funded) arcade user1 2 (token funded) = None"
proof -
  have h1: "balanceOf wary = balanceOf erc20" by (simp add: wary_def)
  have h2: "\<forall>st. status st = ENTERED \<and>
              uint (userCredits st user1) = uint (userCredits (ledger funded) user1) - uint (250 :: uint256)
            \<longrightarrow> transfer wary st = transfer erc20 st"
  proof (intro allI impI)
    fix st :: ArcadeManager
    assume "status st = ENTERED \<and>
              uint (userCredits st user1) = uint (userCredits (ledger funded) user1) - uint (250 :: uint256)"
    then have "status st = ENTERED" and "uint (userCredits st user1) = uint (250 :: uint256)"
      by (simp_all add: scenario_defs)
    then have "status st = ENTERED \<and> getCredits st user1 = 250"
      by (simp add: getCredits_def word_uint_eq_iff)
    then show "transfer wary st = transfer erc20 st"
      by (simp add: wary_def erc20_def)
  qed
  have h3: "withdraw erc20 arcade user1 250 funded = Inr paid_out"
    by (simp add: ledger_defs scenario_defs erc20_defs fun_eq_iff)
  have h4: "transfer wary (ledger funded) arcade user1 2 (token funded) = None"
    by (simp add: wary_def scenario_defs getCredits_def)
  show ?thesis
    using h1 h3 h4 withdraw_debits_before_transfer [OF h1 h2, of arcade] by simp
qed

section \<open>Deposit\<close>

text \<open>
  Claim C4 says that for every positive tokenAmount a deposit whose transferFrom
  reports success increases the caller's balance by exactly tokenAmount * 100. In
  the first world below \<open>user1\<close> can dispose of \<open>2 ^ 255\<close> units: transferFrom
  reports success, the multiplication by the credit rate does not fit in a
  \<^verbatim>\<open>uint256\<close>, and the deposit reverts with a panic, changing nothing. In
  the second the token, owner of the ledger, awards credits while it is called: the
  deposit of 5 units succeeds and raises the balance of \<open>user1\<close> from 0 to 507.
\<close>

theorem deposit_overflow_counterexample:
  "(0 :: uint256) < huge \<and> status (ledger flush) = NOT_ENTERED \<and>
   map_option fst (transferFrom erc20 ((ledger flush)\<lparr>status := ENTERED\<rparr>)
                     arcade user1 arcade huge (token flush)) = Some True \<and>
   deposit erc20 arcade user1 huge flush = Inl Panic \<and>
   transact (deposit erc20 arcade user1 huge) flush = (Some Panic, flush) \<and>
   status (ledger handed_over) = NOT_ENTERED \<and>
   userCredits (ledger handed_over) user1 = 0 \<and>
   map_option fst (transferFrom patron ((ledger handed_over)\<lparr>status := ENTERED\<rparr>)
                     arcade user1 arcade 5 (token handed_over)) = Some True \<and>
   fst (transact (deposit patron arcade user1 5) handed_over) = None \<and>
   userCredits (ledger (snd (transact (deposit patron arcade user1 5) handed_over))) user1 = 507"
  by (simp add: ledger_defs scenario_defs erc20_defs patron_def)

text \<open>
  Claim C4, amended: the guard is idle, tokenAmount is positive and transferFrom,
  called once from the caller to the ledger for tokenAmount units, reports success.
  Let B be the caller's balance when transferFrom returns: the balance before the
  call, unless the token, calling back with the owner's authority, has awarded the
  caller credits meanwhile. When tokenAmount * 100 and B + tokenAmount * 100 fit in
  a \<^verbatim>\<open>uint256\<close>, the deposit succeeds, leaves the caller's balance at exactly
  B + tokenAmount * 100, as integers, and emits Deposit(caller, tokenAmount,
  tokenAmount * 100) after whatever the calls back have emitted; with a faithful
  token the ledger's holding has grown by exactly tokenAmount units, taken from the
  caller's (the caller being another account than the ledger itself). When one of
  the two does not fit, the deposit reverts with an arithmetic panic and changes
  nothing.
\<close>

theorem deposit_credits_exactly:
  assumes "status (ledger w) = NOT_ENTERED" and "0 < amt"
    and "transferFrom tok ((ledger w)\<lparr>status := ENTERED\<rparr>) this a this amt (token w)
           = Some (True, ts', calls)"
    and "w1 = reentered calls (w\<lparr>ledger := (ledger w)\<lparr>status := ENTERED\<rparr>\<rparr>)"
  shows "(uint amt * 100 \<le> MAX_UINT256 \<and>
          uint (userCredits (ledger w1) a) + uint amt * 100 \<le> MAX_UINT256 \<longrightarrow>
            (\<exists>w'. deposit tok this a amt w = Inr w' \<and>
               uint (userCredits (ledger w') a) = uint (userCredits (ledger w1) a) + uint amt * 100 \<and>
               events w' = events w1 @ [Deposit a amt (amt * CREDIT_RATE)] \<and>
               uint (amt * CREDIT_RATE) = uint amt * 100 \<and>
               (faithful tok \<and> a \<noteq> this \<longrightarrow> moved tok (token w) (token w') a this amt))) \<and>
         (\<not> (uint amt * 100 \<le> MAX_UINT256 \<and>
             uint (userCredits (ledger w1) a) + uint amt * 100 \<le> MAX_UINT256) \<longrightarrow>
            transact (deposit tok this a amt) w = (Some Panic, w)) \<and>
         (outsider tok (owner (ledger w)) \<longrightarrow>
            userCredits (ledger w1) = userCredits (ledger w) \<and> events w1 = events w)"
proof (intro conjI impI)
  let ?W = "w\<lparr>ledger := (ledger w)\<lparr>status := ENTERED\<rparr>\<rparr>"
  {
    assume fits: "uint amt * 100 \<le> MAX_UINT256 \<and>
        uint (userCredits (ledger w1) a) + uint amt * 100 \<le> MAX_UINT256"
    let ?w' = "w1\<lparr>ledger := (ledger w1)\<lparr>userCredits :=
                 (userCredits (ledger w1))(a := userCredits (ledger w1) a + amt * CREDIT_RATE),
                 status := NOT_ENTERED\<rparr>,
               token := ts', events := events w1 @ [Deposit a amt (amt * CREDIT_RATE)]\<rparr>"
    have ok: "deposit tok this a amt w = Inr ?w'"
      unfolding deposit_Inr using assms fits
      by (intro conjI exI [of _ ts'] exI [of _ calls] exI [of _ w1]) simp_all
    have credit: "uint (amt * CREDIT_RATE) = uint amt * 100"
      using fits by (simp add: uint_times_exact uint_CREDIT_RATE)
    have bal: "uint (userCredits (ledger ?w') a) = uint (userCredits (ledger w1) a) + uint amt * 100"
      using fits by (simp add: uint_plus_exact credit)
    have asset: "moved tok (token w) (token ?w') a this amt" if "faithful tok" "a \<noteq> this"
    proof -
      have "transferFrom tok ((ledger w)\<lparr>status := ENTERED\<rparr>) this a this amt (token w)
              = Some (True, token ?w', calls)"
        using assms(3) by simp
      with that show ?thesis unfolding faithful_def by blast
    qed
    show "\<exists>w'. deposit tok this a amt w = Inr w' \<and>
           uint (userCredits (ledger w') a) = uint (userCredits (ledger w1) a) + uint amt * 100 \<and>
           events w' = events w1 @ [Deposit a amt (amt * CREDIT_RATE)] \<and>
           uint (amt * CREDIT_RATE) = uint amt * 100 \<and>
           (faithful tok \<and> a \<noteq> this \<longrightarrow> moved tok (token w) (token w') a this amt)"
      using ok bal credit asset by (intro exI [of _ ?w']) simp
  }
  {
    assume over: "\<not> (uint amt * 100 \<le> MAX_UINT256 \<and>
        uint (userCredits (ledger w1) a) + uint amt * 100 \<le> MAX_UINT256)"
    have "deposit_body tok this a amt ?W = Inl Panic"
      using assms over
      by (auto simp: deposit_body_def Let_def checked_mul_def checked_add_def uint_CREDIT_RATE
          uint_times_exact)
    then have "deposit tok this a amt w = Inl Panic"
      using assms(1) by (simp add: deposit_def nonReentrant_Inl)
    then show "transact (deposit tok this a amt) w = (Some Panic, w)"
      by (rule transact_Inl)
  }
  {
    assume "outsider tok (owner (ledger w))"
    with assms(3) have "owner (ledger ?W) \<notin> fst ` set calls"
      by (simp add: outsider_transferFrom)
    then have "reentered calls ?W = ?W" by (rule reentered_outsider)
    then show "userCredits (ledger w1) = userCredits (ledger w)" and "events w1 = events w"
      by (simp_all add: assms(4))
  }
qed

theorem deposit_credits_exactly_witness:
  "status (ledger fresh) = NOT_ENTERED \<and> (0 :: uint256) < 5 \<and>
   transferFrom erc20 ((ledger fresh)\<lparr>status := ENTERED\<rparr>) arcade user1 arcade 5 (token fresh)
     = Some (True, token funded, []) \<and>
   uint (5 :: uint256) * 100 \<le> MAX_UINT256 \<and>
   uint (userCredits (ledger fresh) user1) + uint (5 :: uint256) * 100 \<le> MAX_UINT256 \<and>
   deposit erc20 arcade user1 5 fresh = Inr funded \<and>
   uint (userCredits (ledger funded) user1) = uint (userCredits (ledger fresh) user1) + uint (5 :: uint256) * 100 \<and>
   events funded = events fresh @ [Deposit user1 5 500] \<and>
   faithful erc20 \<and> user1 \<noteq> arcade \<and> outsider erc20 (owner (ledger fresh)) \<and>
   moved erc20 (token fresh) (token funded) user1 arcade 5 \<and>
   balanceOf erc20 (token fresh) arcade = Some 0 \<and>
   balanceOf erc20 (token funded) arcade = Some 5 \<and>
   status (ledger flush) = NOT_ENTERED \<and> (0 :: uint256) < huge \<and>
   \<not> uint huge * 100 \<le> MAX_UINT256 \<and>
   transact (deposit erc20 arcade user1 huge) flush = (Some Panic, flush)"
proof -
  let ?W = "fresh\<lparr>ledger := (ledger fresh)\<lparr>status := ENTERED\<rparr>\<rparr>"
  have h1: "status (ledger fresh) = NOT_ENTERED" by (simp add: scenario_defs)
  have h2: "(0 :: uint256) < 5" by simp
  have h3: "transferFrom erc20 ((ledger fresh)\<lparr>status := ENTERED\<rparr>) arcade user1 arcade 5 (token fresh)
     = Some (True, token funded, [])"
    by (simp add: scenario_defs erc20_defs fun_eq_iff)
  have h4: "?W = reentered [] ?W" by (simp add: reentered_def)
  have fits: "uint (5 :: uint256) * 100 \<le> MAX_UINT256 \<and>
      uint (userCredits (ledger ?W) user1) + uint (5 :: uint256) * 100 \<le> MAX_UINT256"
    by (simp add: scenario_defs MAX_UINT256_def)
  have r: "deposit erc20 arcade user1 5 fresh = Inr funded"
    by (simp add: ledger_defs scenario_defs erc20_defs fun_eq_iff)
  have ne: "user1 \<noteq> arcade" by (simp add: user1_def arcade_def)
  have more: "5 * CREDIT_RATE = 500" "userCredits (ledger ?W) user1 = userCredits (ledger fresh) user1"
    "events ?W = events fresh"
    "balanceOf erc20 (token fresh) arcade = Some 0" "balanceOf erc20 (token funded) arcade = Some 5"
    by (simp_all add: CREDIT_RATE_def scenario_defs erc20_defs)
  have g1: "status (ledger flush) = NOT_ENTERED" by (simp add: scenario_defs)
  have g2: "(0 :: uint256) < huge" by (simp add: huge_def)
  obtain ts where g3: "transferFrom erc20 ((ledger flush)\<lparr>status := ENTERED\<rparr>) arcade user1 arcade huge
      (token flush) = Some (True, ts, [])"
    by (simp add: scenario_defs erc20_defs)
  let ?V = "flush\<lparr>ledger := (ledger flush)\<lparr>status := ENTERED\<rparr>\<rparr>"
  have g4: "?V = reentered [] ?V" by (simp add: reentered_def)
  have over: "\<not> uint huge * 100 \<le> MAX_UINT256" by (simp add: huge_def MAX_UINT256_def)
  show ?thesis
    using h1 h2 h3 fits r ne more faithful_erc20 outsider_erc20 [of "owner (ledger fresh)"]
      g1 g2 over
      deposit_credits_exactly [OF h1 h2 h3 h4, of ] 
      deposit_credits_exactly [OF g1 g2 g3 g4]
    by simp
qed

section \<open>Deposit, then withdraw\<close>

lemma movedD:
  assumes "moved tok ts ts' f t amt"
  obtains bf bt bf' bt' where "balanceOf tok ts f = Some bf" "balanceOf tok ts t = Some bt"
    "balanceOf tok ts' f = Some bf'" "balanceOf tok ts' t = Some bt'"
    "uint bf' = uint bf - uint amt" "uint bt' = uint bt + uint amt"
  using assms by (auto simp: moved_def split: option.splits)

lemma times_rate_div: "uint d * 100 \<le> MAX_UINT256 \<Longrightarrow> (d * CREDIT_RATE) div CREDIT_RATE = d"
  by (rule word_uint_eqI) (simp add: uint_div_CREDIT_RATE uint_times_exact uint_CREDIT_RATE)

lemma round_trip_overflow:
  assumes "userCredits (ledger w) a = 0" and "\<not> uint d * 100 \<le> MAX_UINT256"
  shows "round_trip tok this a d w = w"
proof -
  have "\<forall>w'. deposit tok this a d w \<noteq> Inr w'"
    using assms(2) by (simp add: deposit_Inr)
  then have 1: "snd (transact (deposit tok this a d) w) = w"
    by (cases "deposit tok this a d w") (auto simp: transact_def)
  have "\<forall>w'. withdraw tok this a (d * CREDIT_RATE) w \<noteq> Inr w'"
    using assms(1) by (auto simp: withdraw_Inr word_le_def word_less_def)
  then have 2: "snd (transact (withdraw tok this a (d * CREDIT_RATE)) w) = w"
    by (cases "withdraw tok this a (d * CREDIT_RATE) w") (auto simp: transact_def)
  show ?thesis by (simp add: round_trip_def 1 2)
qed

lemma round_trip_fits:
  assumes idle: "status (ledger w) = NOT_ENTERED"
    and zero: "userCredits (ledger w) a = 0"
    and pos: "0 < d"
    and fits: "uint d * 100 \<le> MAX_UINT256"
    and out: "outsider tok (owner (ledger w))"
    and held: "balanceOf tok ts1 this = Some reserve" "d \<le> reserve"
    and dep: "transferFrom tok ((ledger w)\<lparr>status := ENTERED\<rparr>) this a this d (token w)
                = Some (True, ts1, calls1)"
    and wd: "transfer tok ((ledger w)\<lparr>status := ENTERED\<rparr>) this a d ts1 = Some (True, ts2, calls2)"
  shows "round_trip tok this a d w =
           w\<lparr>token := ts2,
             events := events w @ [Deposit a d (d * CREDIT_RATE), Withdrawal a (d * CREDIT_RATE) d]\<rparr>"
proof -
  let ?uc = "userCredits (ledger w)"
  let ?L = "(ledger w)\<lparr>status := ENTERED\<rparr>"
  let ?w1 = "w\<lparr>ledger := (ledger w)\<lparr>userCredits := ?uc(a := d * CREDIT_RATE)\<rparr>,
               token := ts1, events := events w @ [Deposit a d (d * CREDIT_RATE)]\<rparr>"
  from out dep have "owner (ledger w) \<notin> fst ` set calls1"
    by (rule outsider_transferFrom)
  then have r1: "reentered calls1 X = X" if "owner (ledger X) = owner (ledger w)" for X :: "'a world"
    using that by (simp add: reentered_outsider)
  have 1: "deposit tok this a d w = Inr ?w1"
    unfolding deposit_Inr
    using idle zero pos fits dep
    by (intro conjI exI [of _ ts1] exI [of _ calls1] exI [of _ "w\<lparr>ledger := ?L\<rparr>"])
       (simp_all add: r1 status_userCredits_swap)
  have reset: "?uc(a := 0) = ?uc"
    using zero by (simp add: fun_eq_iff)
  have gt: "0 < d * CREDIT_RATE"
    using pos fits by (simp add: word_less_def uint_times_exact uint_CREDIT_RATE)
  have st: "(ledger w)\<lparr>status := ENTERED, userCredits := ?uc\<rparr> = ?L"
    by (cases "ledger w") simp
  from out wd have "owner (ledger w) \<notin> fst ` set calls2"
    by (rule outsider_transfer)
  then have r2: "reentered calls2 X = X" if "owner (ledger X) = owner (ledger w)" for X :: "'a world"
    using that by (simp add: reentered_outsider)
  have same: "?L\<lparr>status := NOT_ENTERED\<rparr> = ledger w"
    using idle by (cases "ledger w") simp
  have 2: "withdraw tok this a (d * CREDIT_RATE) ?w1 =
             Inr (w\<lparr>token := ts2,
                    events := events w @ [Deposit a d (d * CREDIT_RATE), Withdrawal a (d * CREDIT_RATE) d]\<rparr>)"
    unfolding withdraw_Inr
    using idle pos gt held wd
    by (intro conjI exI [of _ reserve] exI [of _ ts2] exI [of _ calls2] exI [of _ ?L]
          exI [of _ "w\<lparr>ledger := ?L, token := ts1,
                        events := events w @ [Deposit a d (d * CREDIT_RATE)]\<rparr>"])
       (simp_all add: times_rate_div [OF fits] reset st r2 same)
  show ?thesis
    by (simp add: round_trip_def transact_def 1 2)
qed

text \<open>
  Claim C5 says that, from a balance of zero, deposit(d) followed by
  withdraw(d * 100), with successful transfers, returns the caller's balance to
  zero. With the ownership handed to the token contract and a token that awards 7
  credits to each user during every transfer, both calls of \<open>user1\<close> succeed and
  leave \<open>user1\<close> with 14 credits.
\<close>

theorem round_trip_counterexample:
  "transferOwnership deployer bull fresh = Inr handed_over \<and>
   status (ledger handed_over) = NOT_ENTERED \<and>
   userCredits (ledger handed_over) user1 = 0 \<and> (0 :: uint256) < 5 \<and>
   fst (transact (deposit patron arcade user1 5) handed_over) = None \<and>
   fst (transact (withdraw patron arcade user1 (5 * CREDIT_RATE))
          (snd (transact (deposit patron arcade user1 5) handed_over))) = None \<and>
   userCredits (ledger (round_trip patron arcade user1 5 handed_over)) user1 = 14"
  by (simp add: round_trip_def ledger_defs scenario_defs erc20_defs patron_def)

text \<open>
  Claim C5, amended: the caller, an account other than the ledger itself, starts
  with no credits and the guard idle, deposits d > 0 units and then withdraws
  d * 100 credits; the token is faithful, reports both transfers as successful, and
  does not call back with the owner's authority. Afterwards the caller's credits
  are zero again, the whole ledger is as it was, and the token holdings of the
  ledger and of the caller are what they were before the deposit. When d * 100 fits
  in a \<^verbatim>\<open>uint256\<close> both calls succeed, and the only traces are the two
  events; when it does not, the deposit reverts on the multiplication and the
  withdrawal on the empty balance, and nothing has changed at all.
\<close>

theorem deposit_withdraw_round_trip:
  assumes idle: "status (ledger w) = NOT_ENTERED"
    and zero: "userCredits (ledger w) a = 0"
    and pos: "0 < d"
    and neq: "a \<noteq> this"
    and tok: "faithful tok"
    and out: "outsider tok (owner (ledger w))"
    and dep: "transferFrom tok ((ledger w)\<lparr>status := ENTERED\<rparr>) this a this d (token w)
                = Some (True, ts1, calls1)"
    and wd: "transfer tok ((ledger w)\<lparr>status := ENTERED\<rparr>) this a d ts1 = Some (True, ts2, calls2)"
  shows "userCredits (ledger (round_trip tok this a d w)) a = 0 \<and>
         ledger (round_trip tok this a d w) = ledger w \<and>
         balanceOf tok (token (round_trip tok this a d w)) this = balanceOf tok (token w) this \<and>
         balanceOf tok (token (round_trip tok this a d w)) a = balanceOf tok (token w) a \<and>
         (uint d * 100 \<le> MAX_UINT256 \<longrightarrow>
            round_trip tok this a d w =
              w\<lparr>token := ts2,
                events := events w @ [Deposit a d (d * CREDIT_RATE), Withdrawal a (d * CREDIT_RATE) d]\<rparr>)"
proof (cases "uint d * 100 \<le> MAX_UINT256")
  case False
  then show ?thesis
    using zero by (simp add: round_trip_overflow)
next
  case True
  from tok dep neq have m1: "moved tok (token w) ts1 a this d"
    unfolding faithful_def by blast
  from tok wd neq have m2: "moved tok ts1 ts2 this a d"
    unfolding faithful_def by blast
  from m1 obtain bf bt bf' bt' where b1: "balanceOf tok (token w) a = Some bf"
    "balanceOf tok (token w) this = Some bt" "balanceOf tok ts1 a = Some bf'"
    "balanceOf tok ts1 this = Some bt'" "uint bf' = uint bf - uint d" "uint bt' = uint bt + uint d"
    by (rule movedD)
  from m2 obtain cf ct cf' ct' where b2: "balanceOf tok ts1 this = Some cf"
    "balanceOf tok ts1 a = Some ct" "balanceOf tok ts2 this = Some cf'"
    "balanceOf tok ts2 a = Some ct'" "uint cf' = uint cf - uint d" "uint ct' = uint ct + uint d"
    by (rule movedD)
  have held: "d \<le> bt'"
    using b1(6) by (simp add: word_le_def)
  have rt: "round_trip tok this a d w =
      w\<lparr>token := ts2,
        events := events w @ [Deposit a d (d * CREDIT_RATE), Withdrawal a (d * CREDIT_RATE) d]\<rparr>"
    using idle zero pos True out b1(4) held dep wd by (rule round_trip_fits)
  have "cf' = bt" "ct' = bf"
    using b1 b2 by (simp_all add: word_uint_eq_iff)
  then show ?thesis
    using zero b1 b2 by (simp add: rt)
qed

theorem deposit_withdraw_round_trip_witness:
  "status (ledger fresh) = NOT_ENTERED \<and> userCredits (ledger fresh) user1 = 0 \<and> (0 :: uint256) < 5 \<and>
   user1 \<noteq> arcade \<and> faithful erc20 \<and> outsider erc20 (owner (ledger fresh)) \<and>
   transferFrom erc20 ((ledger fresh)\<lparr>status := ENTERED\<rparr>) arcade user1 arcade 5 (token fresh)
     = Some (True, token funded, []) \<and>
   transfer erc20 ((ledger fresh)\<lparr>status := ENTERED\<rparr>) arcade user1 5 (token funded)
     = Some (True, token settled, []) \<and>
   userCredits (ledger (round_trip erc20 arcade user1 5 fresh)) user1 = 0 \<and>
   ledger (round_trip erc20 arcade user1 5 fresh) = ledger fresh \<and>
   balanceOf erc20 (token (round_trip erc20 arcade user1 5 fresh)) arcade
     = balanceOf erc20 (token fresh) arcade \<and>
   balanceOf erc20 (token (round_trip erc20 arcade user1 5 fresh)) user1
     = balanceOf erc20 (token fresh) user1 \<and>
   uint (5 :: uint256) * 100 \<le> MAX_UINT256 \<and>
   round_trip erc20 arcade user1 5 fresh = settled"
proof -
  have h1: "status (ledger fresh) = NOT_ENTERED" by (simp add: scenario_defs)
  have h2: "userCredits (ledger fresh) user1 = 0" by (simp add: scenario_defs)
  have h3: "(0 :: uint256) < 5" by simp
  have h4: "user1 \<noteq> arcade" by (simp add: scenario_defs)
  have h5: "outsider erc20 (owner (ledger fresh))" by (rule outsider_erc20)
  have h6: "transferFrom erc20 ((ledger fresh)\<lparr>status := ENTERED\<rparr>) arcade user1 arcade 5 (token fresh)
     = Some (True, token funded, [])"
    by (simp add: scenario_defs erc20_defs fun_eq_iff)
  have h7: "transfer erc20 ((ledger fresh)\<lparr>status := ENTERED\<rparr>) arcade user1 5 (token funded)
     = Some (True, token settled, [])"
    by (simp add: scenario_defs erc20_defs fun_eq_iff)
  have fits: "uint (5 :: uint256) * 100 \<le> MAX_UINT256" by (simp add: MAX_UINT256_def)
  have eq: "fresh\<lparr>token := token settled,
        events := events fresh @ [Deposit user1 5 (5 * CREDIT_RATE), Withdrawal user1 (5 * CREDIT_RATE) 5]\<rparr>
      = settled"
    by (simp add: scenario_defs CREDIT_RATE_def)
  note t = deposit_withdraw_round_trip [OF h1 h2 h3 h4 faithful_erc20 h5 h6 h7]
  from t fits have rt: "round_trip erc20 arcade user1 5 fresh = settled"
    by (simp add: eq)
  show ?thesis
    using h1 h2 h3 h4 h5 h6 h7 fits faithful_erc20 t rt by simp
qed

section \<open>Awards\<close>

text \<open>
  Claim C8 says that awardWinnings, called by the owner with a non-null player and
  a positive amount, increases the player's balance by exactly that amount. The
  addition is checked: once the owner has awarded \<open>user2\<close> the largest amount
  there is, a further award of 1 by the owner reverts with a panic and the balance
  stays where it was.
\<close>

theorem award_overflow_counterexample:
  "awardWinnings deployer user2 largest fresh = Inr saturated \<and>
   owner (ledger saturated) = deployer \<and> user2 \<noteq> 0 \<and> (0 :: uint256) < 1 \<and>
   awardWinnings deployer user2 1 saturated = Inl Panic \<and>
   transact (awardWinnings deployer user2 1) saturated = (Some Panic, saturated)"
  by (simp add: transact_def ledger_defs scenario_defs erc20_defs fun_eq_iff)

text \<open>
  Claim C8, amended: called by anyone but the owner, awardWinnings fails with
  AccessDenied and changes nothing. Called by the owner with a non-null player and
  a positive amount, it increases the player's balance by exactly the amount and
  emits WinningsAwarded when the new balance fits in a \<^verbatim>\<open>uint256\<close>, and
  reverts with an arithmetic panic, changing nothing, when it does not.
\<close>

theorem awardWinnings_owner_only:
  "(msg_sender \<noteq> owner (ledger w) \<longrightarrow>
      transact (awardWinnings msg_sender player amount) w = (Some AccessDenied, w)) \<and>
   (msg_sender = owner (ledger w) \<and> player \<noteq> 0 \<and> 0 < amount \<and>
    uint (userCredits (ledger w) player) + uint amount \<le> MAX_UINT256 \<longrightarrow>
      (\<exists>w'. awardWinnings msg_sender player amount w = Inr w' \<and>
         uint (userCredits (ledger w') player) = uint (userCredits (ledger w) player) + uint amount \<and>
         events w' = events w @ [WinningsAwarded player amount])) \<and>
   (msg_sender = owner (ledger w) \<and> player \<noteq> 0 \<and> 0 < amount \<and>
    \<not> uint (userCredits (ledger w) player) + uint amount \<le> MAX_UINT256 \<longrightarrow>
      transact (awardWinnings msg_sender player amount) w = (Some Panic, w))"
  by (auto simp: awardWinnings_Inr uint_plus_exact transact_def awardWinnings_def onlyOwner_def
      awardWinnings_body_def checked_add_def)

theorem awardWinnings_owner_only_witness:
  "user1 \<noteq> owner (ledger fresh) \<and>
   transact (awardWinnings user1 user2 500) fresh = (Some AccessDenied, fresh) \<and>
   deployer = owner (ledger fresh) \<and> user2 \<noteq> 0 \<and> (0 :: uint256) < 500 \<and>
   uint (userCredits (ledger fresh) user2) + uint (500 :: uint256) \<le> MAX_UINT256 \<and>
   awardWinnings deployer user2 500 fresh = Inr awarded \<and>
   uint (userCredits (ledger awarded) user2) = uint (userCredits (ledger fresh) user2) + uint (500 :: uint256) \<and>
   events awarded = events fresh @ [WinningsAwarded user2 500] \<and>
   deployer = owner (ledger saturated) \<and> (0 :: uint256) < 1 \<and>
   \<not> uint (userCredits (ledger saturated) user2) + uint (1 :: uint256) \<le> MAX_UINT256 \<and>
   transact (awardWinnings deployer user2 1) saturated = (Some Panic, saturated)"
proof -
  have a1: "user1 \<noteq> owner (ledger fresh)" by (simp add: scenario_defs)
  have a2: "deployer = owner (ledger fresh) \<and> user2 \<noteq> 0 \<and> (0 :: uint256) < 500 \<and>
     uint (userCredits (ledger fresh) user2) + uint (500 :: uint256) \<le> MAX_UINT256"
    by (simp add: scenario_defs MAX_UINT256_def)
  have a3: "deployer = owner (ledger saturated) \<and> user2 \<noteq> 0 \<and> (0 :: uint256) < 1 \<and>
     \<not> uint (userCredits (ledger saturated) user2) + uint (1 :: uint256) \<le> MAX_UINT256"
    by (simp add: scenario_defs MAX_UINT256_def)
  have r: "awardWinnings deployer user2 500 fresh = Inr awarded"
    by (simp add: ledger_defs scenario_defs erc20_defs fun_eq_iff)
  show ?thesis
    using a1 a2 a3 r
      awardWinnings_owner_only [of user1 fresh user2 500]
      awardWinnings_owner_only [of deployer fresh user2 500]
      awardWinnings_owner_only [of deployer saturated user2 1]
    by simp
qed

section \<open>Balances never wrap\<close>

text \<open>
  Claim C7: a balance is an unsigned integer, so it is negative after no
  operation; what the claim asks beyond that is that a debit above the balance
  aborts instead of wrapping around. For spendCredits and withdraw, the two
  operations that debit: a debit of more than the caller's balance always reverts
  and leaves the world as it was, with InsufficientCredits when the guard is idle,
  as it is at every call not made from inside a guarded function; and a debit that
  succeeds was within the balance. After a spendCredits that succeeds the balance
  is exactly the difference, as integers; after a withdraw that succeeds it is at
  least the difference, and exactly the difference when the token does not call
  back with the owner's authority (what it may award the caller while it is called
  comes on top).
\<close>

theorem debit_aborts_instead_of_wrapping:
  "(uint (userCredits (ledger w) a) < uint amt \<longrightarrow>
      (\<exists>e. transact (spendCredits a amt) w = (Some e, w)) \<and>
      (\<exists>e. transact (withdraw tok this a amt) w = (Some e, w))) \<and>
   (uint (userCredits (ledger w) a) < uint amt \<and> status (ledger w) = NOT_ENTERED \<longrightarrow>
      transact (spendCredits a amt) w = (Some InsufficientCredits, w) \<and>
      transact (withdraw tok this a amt) w = (Some InsufficientCredits, w)) \<and>
   (spendCredits a amt w = Inr w' \<longrightarrow>
      uint amt \<le> uint (userCredits (ledger w) a) \<and>
      uint (userCredits (ledger w') a) = uint (userCredits (ledger w) a) - uint amt) \<and>
   (withdraw tok this a amt w = Inr w'' \<longrightarrow>
      uint amt \<le> uint (userCredits (ledger w) a) \<and>
      uint (userCredits (ledger w) a) - uint amt \<le> uint (userCredits (ledger w'') a) \<and>
      (outsider tok (owner (ledger w)) \<longrightarrow>
         uint (userCredits (ledger w'') a) = uint (userCredits (ledger w) a) - uint amt)) \<and>
   0 \<le> uint (userCredits (ledger (snd (transact (spendCredits a amt) w))) b) \<and>
   0 \<le> uint (userCredits (ledger (snd (transact (withdraw tok this a amt) w))) b) \<and>
   0 \<le> uint (userCredits (ledger (snd (transact (deposit tok this a amt) w))) b) \<and>
   0 \<le> uint (userCredits (ledger (snd (transact (awardWinnings a b amt) w))) b)"
proof -
  have over: "(\<exists>e. transact (spendCredits a amt) w = (Some e, w)) \<and>
      (\<exists>e. transact (withdraw tok this a amt) w = (Some e, w))"
    if less: "uint (userCredits (ledger w) a) < uint amt"
  proof
    have "\<forall>v. spendCredits a amt w \<noteq> Inr v"
      using less by (auto simp: spendCredits_Inr word_le_def)
    then show "\<exists>e. transact (spendCredits a amt) w = (Some e, w)"
      by (cases "spendCredits a amt w") (auto simp: transact_def)
    have "\<forall>v. withdraw tok this a amt w \<noteq> Inr v"
      using less by (auto simp: withdraw_Inr word_le_def)
    then show "\<exists>e. transact (withdraw tok this a amt) w = (Some e, w)"
      by (cases "withdraw tok this a amt w") (auto simp: transact_def)
  qed
  have idle: "transact (spendCredits a amt) w = (Some InsufficientCredits, w) \<and>
      transact (withdraw tok this a amt) w = (Some InsufficientCredits, w)"
    if h: "uint (userCredits (ledger w) a) < uint amt \<and> status (ledger w) = NOT_ENTERED"
  proof -
    from h have pos: "0 < amt" and nle: "\<not> amt \<le> userCredits (ledger w) a"
      by (auto simp: word_less_def word_le_def intro: order.strict_trans1 [OF uint_ge_0])
    show ?thesis
      using h pos nle
      by (simp add: transact_def spendCredits_def withdraw_def nonReentrant_def
          spendCredits_body_def withdraw_body_def)
  qed
  have spend: "uint amt \<le> uint (userCredits (ledger w) a) \<and>
      uint (userCredits (ledger w') a) = uint (userCredits (ledger w) a) - uint amt"
    if "spendCredits a amt w = Inr w'"
    using that by (auto simp: spendCredits_Inr word_le_def uint_minus_exact)
  have draw: "uint amt \<le> uint (userCredits (ledger w) a) \<and>
      uint (userCredits (ledger w) a) - uint amt \<le> uint (userCredits (ledger w'') a) \<and>
      (outsider tok (owner (ledger w)) \<longrightarrow>
         uint (userCredits (ledger w'') a) = uint (userCredits (ledger w) a) - uint amt)"
    if "withdraw tok this a amt w = Inr w''"
    using withdraw_debits_before [OF that] by simp
  show ?thesis
    using over idle spend draw by (simp add: uint_ge_0)
qed

theorem debit_aborts_instead_of_wrapping_witness:
  "uint (userCredits (ledger funded) user1) < uint (501 :: uint256) \<and>
   status (ledger funded) = NOT_ENTERED \<and>
   transact (spendCredits user1 501) funded = (Some InsufficientCredits, funded) \<and>
   transact (withdraw erc20 arcade user1 501) funded = (Some InsufficientCredits, funded) \<and>
   spendCredits user1 200 funded = Inr spent \<and>
   uint (userCredits (ledger spent) user1) = uint (userCredits (ledger funded) user1) - uint (200 :: uint256) \<and>
   withdraw erc20 arcade user1 250 funded = Inr paid_out \<and>
   outsider erc20 (owner (ledger funded)) \<and>
   uint (userCredits (ledger paid_out) user1) = uint (userCredits (ledger funded) user1) - uint (250 :: uint256)"
proof -
  have h1: "uint (userCredits (ledger funded) user1) < uint (501 :: uint256) \<and>
      status (ledger funded) = NOT_ENTERED"
    by (simp add: scenario_defs)
  have h2: "spendCredits user1 200 funded = Inr spent"
    by (simp add: ledger_defs scenario_defs erc20_defs fun_eq_iff)
  have h3: "withdraw erc20 arcade user1 250 funded = Inr paid_out"
    by (simp add: ledger_defs scenario_defs erc20_defs fun_eq_iff)
  show ?thesis
    using h1 h2 h3 outsider_erc20 [of "owner (ledger funded)"]
      debit_aborts_instead_of_wrapping [of funded user1 501 erc20 arcade]
      debit_aborts_instead_of_wrapping [of funded user1 200 erc20 arcade spent]
      debit_aborts_instead_of_wrapping [of funded user1 250 erc20 arcade _ paid_out]
    by simp
qed

section \<open>What the operations leave alone\<close>

text \<open>
  Claim C10 says that deposit, spendCredits and withdraw leave the credits of every
  account other than the caller as they were. \<^verbatim>\<open>awardWinnings\<close> has no
  \<^verbatim>\<open>nonReentrant\<close>, so the token can call it while deposit or withdraw
  is calling the token. Once the deployer has handed the ownership to the token
  contract, a token that awards 7 credits to each user during every transfer makes
  the deposit and the withdrawal of \<open>user1\<close>, both successful, raise the credits
  of \<open>user2\<close> from 0 to 7.
\<close>

theorem reentrant_award_counterexample:
  "transferOwnership deployer bull fresh = Inr handed_over \<and>
   transferOwnership deployer bull funded = Inr handed_funded \<and>
   user2 \<noteq> user1 \<and>
   userCredits (ledger handed_over) user2 = 0 \<and>
   fst (transact (deposit patron arcade user1 5) handed_over) = None \<and>
   userCredits (ledger (snd (transact (deposit patron arcade user1 5) handed_over))) user2 = 7 \<and>
   userCredits (ledger handed_funded) user2 = 0 \<and>
   fst (transact (withdraw patron arcade user1 250) handed_funded) = None \<and>
   userCredits (ledger (snd (transact (withdraw patron arcade user1 250) handed_funded))) user2 = 7"
  by (simp add: ledger_defs scenario_defs erc20_defs patron_def)

text \<open>
  Claim C10, amended: whether they succeed or revert, spendCredits leaves the
  credits of every account other than the caller as they were, and awardWinnings
  those of every account other than the player; deposit and withdraw leave the
  credits of every account other than the caller as they were when the token does
  not call back with the owner's authority while they call it. None of the four
  changes \<^verbatim>\<open>bullToken\<close>, whatever the token does, and
  \<^verbatim>\<open>CREDIT_RATE\<close> is the constant 100, which no state holds.
\<close>

theorem operations_frame:
  "(b \<noteq> a \<longrightarrow>
      userCredits (ledger (snd (transact (spendCredits a x) w))) b = userCredits (ledger w) b) \<and>
   (b \<noteq> player \<longrightarrow>
      userCredits (ledger (snd (transact (awardWinnings a player x) w))) b = userCredits (ledger w) b) \<and>
   (b \<noteq> a \<and> outsider tok (owner (ledger w)) \<longrightarrow>
      userCredits (ledger (snd (transact (deposit tok this a x) w))) b = userCredits (ledger w) b \<and>
      userCredits (ledger (snd (transact (withdraw tok this a x) w))) b = userCredits (ledger w) b) \<and>
   bullToken (ledger (snd (transact (deposit tok this a x) w))) = bullToken (ledger w) \<and>
   bullToken (ledger (snd (transact (spendCredits a x) w))) = bullToken (ledger w) \<and>
   bullToken (ledger (snd (transact (withdraw tok this a x) w))) = bullToken (ledger w) \<and>
   bullToken (ledger (snd (transact (awardWinnings a player x) w))) = bullToken (ledger w) \<and>
   CREDIT_RATE = 100"
proof -
  have d: "userCredits (ledger (snd (transact (deposit tok this a x) w))) b = userCredits (ledger w) b"
    if "b \<noteq> a" "outsider tok (owner (ledger w))"
    using that by (auto simp: snd_transact deposit_credits_after(1) split: sum.splits)
  have d': "bullToken (ledger (snd (transact (deposit tok this a x) w))) = bullToken (ledger w)"
    by (auto simp: snd_transact deposit_credits_after(2) split: sum.splits)
  have s: "userCredits (ledger (snd (transact (spendCredits a x) w))) b = userCredits (ledger w) b"
    if "b \<noteq> a" using that by (auto simp: snd_transact spendCredits_Inr split: sum.splits)
  have s': "bullToken (ledger (snd (transact (spendCredits a x) w))) = bullToken (ledger w)"
    by (auto simp: snd_transact spendCredits_Inr split: sum.splits)
  have t: "userCredits (ledger (snd (transact (withdraw tok this a x) w))) b = userCredits (ledger w) b"
    if "b \<noteq> a" "outsider tok (owner (ledger w))"
    using that by (auto simp: snd_transact withdraw_debits_before(4) split: sum.splits)
  have t': "bullToken (ledger (snd (transact (withdraw tok this a x) w))) = bullToken (ledger w)"
    by (auto simp: snd_transact withdraw_debits_before(5) split: sum.splits)
  have u: "userCredits (ledger (snd (transact (awardWinnings a player x) w))) b = userCredits (ledger w) b"
    if "b \<noteq> player" using that by (auto simp: snd_transact awardWinnings_Inr split: sum.splits)
  have u': "bullToken (ledger (snd (transact (awardWinnings a player x) w))) = bullToken (ledger w)"
    by (auto simp: snd_transact awardWinnings_Inr split: sum.splits)
  show ?thesis
    using d d' s s' t t' u u' by (simp add: CREDIT_RATE_def)
qed

theorem operations_frame_witness:
  "user2 \<noteq> user1 \<and> outsider erc20 (owner (ledger funded)) \<and>
   fst (transact (deposit erc20 arcade user1 40) funded) = None \<and>
   userCredits (ledger (snd (transact (deposit erc20 arcade user1 40) funded))) user2
     = userCredits (ledger funded) user2 \<and>
   fst (transact (spendCredits user1 200) funded) = None \<and>
   userCredits (ledger (snd (transact (spendCredits user1 200) funded))) user2
     = userCredits (ledger funded) user2 \<and>
   fst (transact (withdraw erc20 arcade user1 200) funded) = None \<and>
   userCredits (ledger (snd (transact (withdraw erc20 arcade user1 200) funded))) user2
     = userCredits (ledger funded) user2 \<and>
   fst (transact (awardWinnings deployer user1 200) funded) = None \<and>
   userCredits (ledger (snd (transact (awardWinnings deployer user1 200) funded))) user2
     = userCredits (ledger funded) user2 \<and>
   bullToken (ledger (snd (transact (deposit erc20 arcade user1 40) funded))) = bullToken (ledger funded) \<and>
   bullToken (ledger (snd (transact (withdraw erc20 arcade user1 200) funded))) = bullToken (ledger funded) \<and>
   bullToken (ledger (snd (transact (withdraw patron arcade user1 250) handed_funded)))
     = bullToken (ledger handed_funded)"
proof -
  have ne: "user2 \<noteq> user1" by (simp add: scenario_defs)
  have ok: "fst (transact (deposit erc20 arcade user1 40) funded) = None"
    "fst (transact (spendCredits user1 200) funded) = None"
    "fst (transact (withdraw erc20 arcade user1 200) funded) = None"
    "fst (transact (awardWinnings deployer user1 200) funded) = None"
    by (simp_all add: ledger_defs scenario_defs erc20_defs)
  show ?thesis
    using ne ok outsider_erc20 [of "owner (ledger funded)"]
      operations_frame [of user2 user1 40 funded user1 erc20 arcade]
      operations_frame [of user2 user1 200 funded user1 erc20 arcade]
      operations_frame [of user2 deployer 200 funded user1 erc20 arcade]
      operations_frame [of user2 user1 250 handed_funded user1 patron arcade]
    by simp
qed

end
